theory Spec2Isabelle
  imports Complex_Main
begin

section \<open>Strings\<close>

text \<open>
  A JavaScript string is a sequence of UTF-16 code units; \<open>length\<close> counts code units.
  A code unit is modelled as a natural number (every real string is a list of numbers
  below 65536, so a theorem about all lists covers all strings).  \<open>js\<close> embeds an ASCII
  literal.
\<close>

type_synonym jsstring = "nat list"

definition js :: "string \<Rightarrow> jsstring" where
  "js s = map of_char s"

text \<open>ECMAScript LineTerminator: LF, CR, LS, PS.\<close>

definition isLineTerminator :: "nat \<Rightarrow> bool" where
  "isLineTerminator c = (c = 10 \<or> c = 13 \<or> c = 8232 \<or> c = 8233)"

text \<open>
  ECMAScript WhiteSpace together with LineTerminator: the set that the regular
  expression class \<open>\s\<close> matches and that \<open>trim\<close>, \<open>trimEnd\<close> remove.
\<close>

definition isWhiteSpace :: "nat \<Rightarrow> bool" where
  "isWhiteSpace c = (c = 9 \<or> c = 10 \<or> c = 11 \<or> c = 12 \<or> c = 13 \<or> c = 32 \<or> c = 160
     \<or> c = 5760 \<or> (8192 \<le> c \<and> c \<le> 8202) \<or> c = 8232 \<or> c = 8233 \<or> c = 8239
     \<or> c = 8287 \<or> c = 12288 \<or> c = 65279)"

definition trimStart :: "jsstring \<Rightarrow> jsstring" where
  "trimStart s = dropWhile isWhiteSpace s"

fun trimEnd :: "jsstring \<Rightarrow> jsstring" where
  "trimEnd [] = []"
| "trimEnd (c # cs) =
     (case trimEnd cs of [] \<Rightarrow> if isWhiteSpace c then [] else [c] | d # ds \<Rightarrow> c # d # ds)"

definition trim :: "jsstring \<Rightarrow> jsstring" where
  "trim s = trimEnd (trimStart s)"

text \<open>\<open>s.split(d)\<close> for a one-unit separator, and \<open>xs.join(d)\<close>.\<close>

fun splitOn :: "nat \<Rightarrow> jsstring \<Rightarrow> jsstring list" where
  "splitOn d [] = [[]]"
| "splitOn d (c # cs) =
     (if c = d then [] # splitOn d cs
      else (case splitOn d cs of [] \<Rightarrow> [[c]] | l # ls \<Rightarrow> (c # l) # ls))"

fun joinWith :: "nat \<Rightarrow> jsstring list \<Rightarrow> jsstring" where
  "joinWith d [] = []"
| "joinWith d [l] = l"
| "joinWith d (l # m # ls) = l @ d # joinWith d (m # ls)"

fun startsWith :: "jsstring \<Rightarrow> jsstring \<Rightarrow> bool" where
  "startsWith s [] = True"
| "startsWith [] (p # ps) = False"
| "startsWith (c # cs) (p # ps) = (c = p \<and> startsWith cs ps)"

text \<open>\<open>s.includes(p)\<close>: \<open>p\<close> occurs in \<open>s\<close> as a contiguous substring.\<close>

fun jsIncludes :: "jsstring \<Rightarrow> jsstring \<Rightarrow> bool" where
  "jsIncludes [] p = (p = [])"
| "jsIncludes (c # cs) p = (startsWith (c # cs) p \<or> jsIncludes cs p)"

section \<open>Configuration types (types.intelligent-routing.ts)\<close>

datatype ModelTierId = T0 | T1 | T2 | T3 | T4

datatype IntentComplexity = Trivial | Simple | Standard | Complex | Flagship | Explicit

datatype RoutingBias = Cost | Balanced | Quality

record TierModelConfig =
  tierModel :: jsstring
  maxTokens :: "real option"

text \<open>
  The router reads \<open>budget.currentSpend?.dailyUsd\<close> and \<open>.monthlyUsd\<close>; an optional
  field is an \<open>option\<close>.  A JavaScript number is modelled as a real (the finite doubles
  are reals, and comparing them is exact).
\<close>

record CurrentSpend =
  dailyUsd :: "real option"
  monthlyUsd :: "real option"

record RoutingBudgetConfig =
  dailyCapUsd :: "real option"
  monthlyCapUsd :: "real option"
  preferFree :: "bool option"
  currentSpend :: "CurrentSpend option"

record IntelligentRoutingConfig =
  enabled :: "bool option"
  bias :: "RoutingBias option"
  tiers :: "ModelTierId \<rightharpoonup> TierModelConfig"
  budget :: "RoutingBudgetConfig option"
  analyticsFlag :: "bool option"
  analyticsPath :: "jsstring option"

text \<open>
  The event of routing-analytics.ts.  The logger given to the router appends the event
  to its sink; the sink is modelled as the list of events recorded so far.
\<close>

datatype EventKind = Route | Complete | Fallback | BudgetDowngrade | Override

record RoutingAnalyticsEvent =
  ts :: jsstring
  event :: EventKind
  intent :: IntentComplexity
  confidence :: real
  tier :: ModelTierId
  originalTier :: "ModelTierId option"
  provider :: jsstring
  model :: jsstring
  endpoint :: "jsstring option"
  sessionId :: "jsstring option"
  channel :: "jsstring option"
  messageLength :: nat
  latencyMs :: "real option"
  responseSize :: "real option"
  estimatedCostUsd :: "real option"
  classifierReason :: "jsstring option"
  promptAdapted :: bool

type_synonym RoutingAnalyticsLogger = "RoutingAnalyticsEvent list"

text \<open>\<open>ModelRef\<close> of model-selection.js.\<close>

record ModelRef =
  provider :: jsstring
  model :: jsstring

section \<open>Tier registry (model-tiers.ts)\<close>

definition TIER_ORDER :: "ModelTierId list" where
  "TIER_ORDER = [T0, T1, T2, T3, T4]"

text \<open>\<open>Array.prototype.indexOf\<close>: the first index of the element, or -1.\<close>

fun indexOf :: "'a list \<Rightarrow> 'a \<Rightarrow> int" where
  "indexOf [] x = -1"
| "indexOf (y # ys) x =
     (if y = x then 0 else (let i = indexOf ys x in if i < 0 then -1 else i + 1))"

text \<open>An array read \<open>xs[i]\<close>: \<open>None\<close> stands for JavaScript's \<open>undefined\<close>.\<close>

definition arrayAt :: "'a list \<Rightarrow> int \<Rightarrow> 'a option" where
  "arrayAt xs i = (if 0 \<le> i \<and> i < int (length xs) then Some (xs ! nat i) else None)"

definition tierIndex :: "ModelTierId \<Rightarrow> int" where
  "tierIndex t = indexOf TIER_ORDER t"

definition resolveMinTierForIntent :: "IntentComplexity \<Rightarrow> ModelTierId" where
  "resolveMinTierForIntent i =
     (case i of Trivial \<Rightarrow> T0 | Simple \<Rightarrow> T1 | Standard \<Rightarrow> T2
        | Complex \<Rightarrow> T3 | Flagship \<Rightarrow> T4 | Explicit \<Rightarrow> T4)"

definition getDefaultTierModel :: "ModelTierId \<Rightarrow> ModelRef option" where
  "getDefaultTierModel t =
     (case t of
        T0 \<Rightarrow> None
      | T1 \<Rightarrow> Some \<lparr>provider = js ''ollama'', model = js ''qwen2.5:7b''\<rparr>
      | T2 \<Rightarrow> Some \<lparr>provider = js ''anthropic'', model = js ''claude-sonnet-4-5''\<rparr>
      | T3 \<Rightarrow> Some \<lparr>provider = js ''anthropic'', model = js ''claude-sonnet-4-5''\<rparr>
      | T4 \<Rightarrow> Some \<lparr>provider = js ''anthropic'', model = js ''claude-opus-4-5''\<rparr>)"

text \<open>\<open>getTierDefinition(tier).costPer1kInput\<close>, the one field the router reads.\<close>

definition costPer1kInput :: "ModelTierId \<Rightarrow> real" where
  "costPer1kInput t =
     (case t of T0 \<Rightarrow> 0 | T1 \<Rightarrow> 0 | T2 \<Rightarrow> 3 / 1000 | T3 \<Rightarrow> 15 / 1000 | T4 \<Rightarrow> 15 / 1000)"

definition isHigherTier :: "ModelTierId \<Rightarrow> ModelTierId \<Rightarrow> bool" where
  "isHigherTier a b = (tierIndex a > tierIndex b)"

definition maxTier :: "ModelTierId \<Rightarrow> ModelTierId \<Rightarrow> ModelTierId" where
  "maxTier a b = (if tierIndex a \<ge> tierIndex b then a else b)"

definition clampTier :: "ModelTierId \<Rightarrow> ModelTierId \<Rightarrow> ModelTierId" where
  "clampTier t maxAllowed = (if tierIndex t \<le> tierIndex maxAllowed then t else maxAllowed)"

section \<open>Router helpers (intelligent-router.ts)\<close>

text \<open>
  \<open>applyBias\<close> reads \<open>TIER_ORDER[idx - 1]\<close> and \<open>TIER_ORDER[idx + 1]\<close>; the result is an
  \<open>option\<close> so that a read outside the array (JavaScript's \<open>undefined\<close>) is visible.
\<close>

definition applyBias :: "ModelTierId \<Rightarrow> RoutingBias \<Rightarrow> ModelTierId option" where
  "applyBias t b =
     (if b = Balanced then Some t
      else (let idx = tierIndex t in
        if b = Cost then (if idx \<le> 1 then Some t else arrayAt TIER_ORDER (idx - 1))
        else if b = Quality then (if idx \<ge> 4 then Some t else arrayAt TIER_ORDER (idx + 1))
        else Some t))"

text \<open>JavaScript truthiness of an optional boolean field.\<close>

definition truthy :: "bool option \<Rightarrow> bool" where
  "truthy b = (b = Some True)"

definition applyBudgetConstraints :: "ModelTierId \<Rightarrow> IntelligentRoutingConfig \<Rightarrow> ModelTierId" where
  "applyBudgetConstraints t rc =
     (case budget rc of
        None \<Rightarrow> t
      | Some bud \<Rightarrow>
          if truthy (preferFree bud) then clampTier t T1
          else if (case (dailyCapUsd bud, Option.bind (currentSpend bud) dailyUsd) of
                     (Some cap, Some spent) \<Rightarrow> spent \<ge> cap | _ \<Rightarrow> False)
               then clampTier t T1
          else if (case (monthlyCapUsd bud, Option.bind (currentSpend bud) monthlyUsd) of
                     (Some cap, Some spent) \<Rightarrow> spent \<ge> cap | _ \<Rightarrow> False)
               then clampTier t T1
          else t)"

text \<open>
  \<open>cfg.agents?.defaults?.model\<close> is a string, an object with an optional \<open>primary\<close>
  string, or absent.  \<open>cfg.models?.providers\<close> maps a provider name to its settings.
\<close>

datatype AgentModel = ModelString jsstring | ModelObject "jsstring option"

record ProviderConfig =
  baseUrl :: "jsstring option"

record MoltbotConfig =
  agentsDefaultsModel :: "AgentModel option"
  modelsProviders :: "jsstring \<rightharpoonup> ProviderConfig"

text \<open>The parameters of \<open>routeMessage\<close>.\<close>

record RouterParams =
  message :: jsstring
  systemPrompt :: jsstring
  cfg :: MoltbotConfig
  routingConfig :: IntelligentRoutingConfig
  sessionModelOverride :: "ModelRef option"
  channel :: "jsstring option"
  sessionId :: "jsstring option"
  analytics :: "RoutingAnalyticsLogger option"

text \<open>
  \<open>parseModelRef\<close> and \<open>DEFAULT_PROVIDER\<close> are imported from model-selection.js and
  defaults.js, which are not part of the sources at hand; the router is modelled over
  any such parser (it returns a model reference or null) and any default provider.
\<close>

record ModelSelection =
  parseModelRef :: "jsstring \<Rightarrow> jsstring \<Rightarrow> ModelRef option"
  DEFAULT_PROVIDER :: jsstring

text \<open>The tier's override string, when the tier has a configuration with a non-empty \<open>model\<close>.\<close>

definition tierOverride :: "IntelligentRoutingConfig \<Rightarrow> ModelTierId \<Rightarrow> jsstring option" where
  "tierOverride rc t =
     (case tiers rc t of
        None \<Rightarrow> None
      | Some tc \<Rightarrow> if tierModel tc \<noteq> [] then Some (tierModel tc) else None)"

definition resolveModelForTier ::
  "ModelSelection \<Rightarrow> ModelTierId \<Rightarrow> IntelligentRoutingConfig \<Rightarrow> MoltbotConfig \<Rightarrow> ModelRef" where
  "resolveModelForTier M t rc config =
     (case Option.bind (tierOverride rc t) (\<lambda>s. parseModelRef M s (DEFAULT_PROVIDER M)) of
        Some parsed \<Rightarrow> parsed
      | None \<Rightarrow>
     (case getDefaultTierModel t of
        Some defaultModel \<Rightarrow> defaultModel
      | None \<Rightarrow>
     (case (case agentsDefaultsModel config of
              Some (ModelString globalPrimary) \<Rightarrow> parseModelRef M globalPrimary (DEFAULT_PROVIDER M)
            | Some (ModelObject (Some primary)) \<Rightarrow>
                if primary \<noteq> [] then parseModelRef M primary (DEFAULT_PROVIDER M) else None
            | _ \<Rightarrow> None) of
        Some parsed \<Rightarrow> parsed
      | None \<Rightarrow> \<lparr>provider = DEFAULT_PROVIDER M, model = js ''claude-sonnet-4-5''\<rparr>)))"

section \<open>Regular expressions\<close>

text \<open>
  The patterns of the sources are ECMAScript regular expressions without back
  references or look-around.  A position in the input is the code unit before it (if
  any) and the rest of the input; \<open>ends r p\<close> lists the positions at which a match of
  \<open>r\<close> started at \<open>p\<close> can end, in the order in which the backtracking matcher of the
  language tries them (the left alternative first, a greedy repetition longest first, a
  lazy one shortest first).  The first element is the match the engine reports.

  \<open>Chr\<close> consumes one code unit, \<open>UChr\<close> one code point (a pattern with the \<open>u\<close> flag);
  \<open>Bol\<close> and \<open>Eol\<close> are \<open>^\<close> and \<open>$\<close>, \<open>MBol\<close> is \<open>^\<close> under the \<open>m\<close> flag, \<open>WordB\<close> is \<open>\b\<close>.
\<close>

type_synonym pos = "nat option \<times> jsstring"

datatype regex =
    Chr "nat \<Rightarrow> bool"
  | UChr "nat \<Rightarrow> bool"
  | Eps
  | Seq regex regex
  | Alt regex regex
  | Star regex
  | LazyStar regex
  | Bol
  | MBol
  | Eol
  | WordB

definition isWordChar :: "nat \<Rightarrow> bool" where
  "isWordChar c = ((97 \<le> c \<and> c \<le> 122) \<or> (65 \<le> c \<and> c \<le> 90) \<or> (48 \<le> c \<and> c \<le> 57) \<or> c = 95)"

definition isDigit :: "nat \<Rightarrow> bool" where
  "isDigit c = (48 \<le> c \<and> c \<le> 57)"

definition isLead :: "nat \<Rightarrow> bool" where
  "isLead c = (55296 \<le> c \<and> c \<le> 56319)"

definition isTrail :: "nat \<Rightarrow> bool" where
  "isTrail c = (56320 \<le> c \<and> c \<le> 57343)"

text \<open>The code point at the head of the input, the last code unit it spans, and the rest.\<close>

fun codePointAt :: "jsstring \<Rightarrow> (nat \<times> nat \<times> jsstring) option" where
  "codePointAt [] = None"
| "codePointAt [c] = Some (c, c, [])"
| "codePointAt (h # l # cs) =
     (if isLead h \<and> isTrail l then Some ((h - 55296) * 1024 + (l - 56320) + 65536, l, cs)
      else Some (h, h, l # cs))"

text \<open>
  A repetition gives up an iteration that consumes nothing (the language's rule for
  empty iterations), so the length of the rest bounds the number of iterations.
\<close>

definition progress :: "pos \<Rightarrow> pos list \<Rightarrow> pos list" where
  "progress p qs = filter (\<lambda>q. length (snd q) < length (snd p)) qs"

fun greedy :: "nat \<Rightarrow> (pos \<Rightarrow> pos list) \<Rightarrow> pos \<Rightarrow> pos list" where
  "greedy 0 f p = [p]"
| "greedy (Suc n) f p = concat (map (greedy n f) (progress p (f p))) @ [p]"

fun lazy :: "nat \<Rightarrow> (pos \<Rightarrow> pos list) \<Rightarrow> pos \<Rightarrow> pos list" where
  "lazy 0 f p = [p]"
| "lazy (Suc n) f p = p # concat (map (lazy n f) (progress p (f p)))"

definition wordBefore :: "pos \<Rightarrow> bool" where
  "wordBefore p = (case fst p of None \<Rightarrow> False | Some c \<Rightarrow> isWordChar c)"

definition wordAfter :: "pos \<Rightarrow> bool" where
  "wordAfter p = (case snd p of [] \<Rightarrow> False | c # cs \<Rightarrow> isWordChar c)"

primrec ends :: "regex \<Rightarrow> pos \<Rightarrow> pos list" where
  "ends (Chr P) p = (case snd p of [] \<Rightarrow> [] | c # cs \<Rightarrow> if P c then [(Some c, cs)] else [])"
| "ends (UChr P) p =
     (case codePointAt (snd p) of None \<Rightarrow> []
      | Some (cp, l, cs) \<Rightarrow> if P cp then [(Some l, cs)] else [])"
| "ends Eps p = [p]"
| "ends (Seq a b) p = concat (map (ends b) (ends a p))"
| "ends (Alt a b) p = ends a p @ ends b p"
| "ends (Star a) p = greedy (length (snd p)) (ends a) p"
| "ends (LazyStar a) p = lazy (length (snd p)) (ends a) p"
| "ends Bol p = (if fst p = None then [p] else [])"
| "ends MBol p = (case fst p of None \<Rightarrow> [p] | Some c \<Rightarrow> if isLineTerminator c then [p] else [])"
| "ends Eol p = (if snd p = [] then [p] else [])"
| "ends WordB p = (if wordBefore p \<noteq> wordAfter p then [p] else [])"

text \<open>
  A regular expression object: its \<open>source\<close> text, the \<open>u\<close> flag and the pattern.  The
  \<open>i\<close> flag is part of the pattern (\<open>chi\<close> below), the \<open>g\<close> flag of the operation used.
\<close>

record RegExp =
  source :: jsstring
  unicode :: bool
  body :: regex

text \<open>
  \<open>re.test(s)\<close> for a pattern without the \<open>g\<close> and \<open>y\<close> flags: a match starts at some
  position of the input, tried from the left; under the \<open>u\<close> flag the search advances by
  code points.
\<close>

fun searchFrom :: "RegExp \<Rightarrow> nat option \<Rightarrow> jsstring \<Rightarrow> bool" where
  "searchFrom re prev [] = (ends (body re) (prev, []) \<noteq> [])"
| "searchFrom re prev [c] = (ends (body re) (prev, [c]) \<noteq> [] \<or> searchFrom re (Some c) [])"
| "searchFrom re prev (c # d # cs) =
     (ends (body re) (prev, c # d # cs) \<noteq> []
      \<or> (if unicode re \<and> isLead c \<and> isTrail d then searchFrom re (Some d) cs
          else searchFrom re (Some c) (d # cs)))"

definition test :: "RegExp \<Rightarrow> jsstring \<Rightarrow> bool" where
  "test re s = searchFrom re None s"

text \<open>
  \<open>s.replace(re, rep)\<close> with the \<open>g\<close> flag and a pattern without the \<open>u\<close> flag: every
  match, found from the left, is replaced; the search goes on after the match (one
  code unit further after an empty match).  The counter is the number of code units
  of the current match still to be skipped.
\<close>

fun replaceGo :: "regex \<Rightarrow> jsstring \<Rightarrow> nat \<Rightarrow> nat option \<Rightarrow> jsstring \<Rightarrow> jsstring" where
  "replaceGo r rep k prev [] =
     (if k = 0 \<and> ends r (prev, []) \<noteq> [] then rep else [])"
| "replaceGo r rep (Suc k) prev (c # cs) = replaceGo r rep k (Some c) cs"
| "replaceGo r rep 0 prev (c # cs) =
     (case ends r (prev, c # cs) of
        [] \<Rightarrow> c # replaceGo r rep 0 (Some c) cs
      | q # qs \<Rightarrow>
          (case length (c # cs) - length (snd q) of
             0 \<Rightarrow> rep @ c # replaceGo r rep 0 (Some c) cs
           | Suc n \<Rightarrow> rep @ replaceGo r rep n (Some c) cs))"

definition replaceAll :: "RegExp \<Rightarrow> jsstring \<Rightarrow> jsstring \<Rightarrow> jsstring" where
  "replaceAll re rep s = replaceGo (body re) rep 0 None s"

text \<open>
  \<open>s.replace(re, rep)\<close> without the \<open>g\<close> flag: only the first match from the left is
  replaced.
\<close>

fun replaceFirstGo :: "RegExp \<Rightarrow> jsstring \<Rightarrow> nat option \<Rightarrow> jsstring \<Rightarrow> jsstring" where
  "replaceFirstGo re rep prev [] = (if ends (body re) (prev, []) \<noteq> [] then rep else [])"
| "replaceFirstGo re rep prev [c] =
     (case ends (body re) (prev, [c]) of
        [] \<Rightarrow> c # replaceFirstGo re rep (Some c) []
      | q # qs \<Rightarrow> rep @ snd q)"
| "replaceFirstGo re rep prev (c # d # cs) =
     (case ends (body re) (prev, c # d # cs) of
        [] \<Rightarrow> (if unicode re \<and> isLead c \<and> isTrail d then c # d # replaceFirstGo re rep (Some d) cs
               else c # replaceFirstGo re rep (Some c) (d # cs))
      | q # qs \<Rightarrow> rep @ snd q)"

definition replaceFirst :: "RegExp \<Rightarrow> jsstring \<Rightarrow> jsstring \<Rightarrow> jsstring" where
  "replaceFirst re rep s = replaceFirstGo re rep None s"

text \<open>
  \<open>(s.match(re) || []).length\<close> with the \<open>g\<close> flag and no \<open>u\<close> flag: the number of
  matches found from the left.
\<close>

fun countGo :: "regex \<Rightarrow> nat \<Rightarrow> nat option \<Rightarrow> jsstring \<Rightarrow> nat" where
  "countGo r k prev [] = (if k = 0 \<and> ends r (prev, []) \<noteq> [] then 1 else 0)"
| "countGo r (Suc k) prev (c # cs) = countGo r k (Some c) cs"
| "countGo r 0 prev (c # cs) =
     (case ends r (prev, c # cs) of
        [] \<Rightarrow> countGo r 0 (Some c) cs
      | q # qs \<Rightarrow> Suc (countGo r (length (c # cs) - length (snd q) - 1) (Some c) cs))"

definition matchCount :: "RegExp \<Rightarrow> jsstring \<Rightarrow> nat" where
  "matchCount re s = countGo (body re) 0 None s"

text \<open>
  \<open>s.split(re)\<close> for a pattern without capture groups and without the \<open>u\<close> flag.  The
  pieces are the stretches between matches; a match that is empty and starts where
  the current piece starts is passed over.  The flag tells whether the current piece
  is still empty; the counter skips the rest of a separator.
\<close>

fun consHead :: "nat \<Rightarrow> jsstring list \<Rightarrow> jsstring list" where
  "consHead c [] = [[c]]"
| "consHead c (p # ps) = (c # p) # ps"

fun splitGo :: "regex \<Rightarrow> nat \<Rightarrow> bool \<Rightarrow> nat option \<Rightarrow> jsstring \<Rightarrow> jsstring list" where
  "splitGo r k fresh prev [] = [[]]"
| "splitGo r (Suc k) fresh prev (c # cs) = splitGo r k fresh (Some c) cs"
| "splitGo r 0 fresh prev (c # cs) =
     (case ends r (prev, c # cs) of
        [] \<Rightarrow> consHead c (splitGo r 0 False (Some c) cs)
      | q # qs \<Rightarrow>
          (case length (c # cs) - length (snd q) of
             0 \<Rightarrow> (if fresh then consHead c (splitGo r 0 False (Some c) cs)
                   else [] # consHead c (splitGo r 0 False (Some c) cs))
           | Suc n \<Rightarrow> [] # splitGo r n True (Some c) cs))"

definition splitRe :: "RegExp \<Rightarrow> jsstring \<Rightarrow> jsstring list" where
  "splitRe re s =
     (if s = [] then (if ends (body re) (None, []) \<noteq> [] then [] else [[]])
      else splitGo (body re) 0 True None s)"

subsection \<open>Pattern syntax\<close>

definition seqs :: "regex list \<Rightarrow> regex" where
  "seqs rs = foldr Seq rs Eps"

fun alts :: "regex list \<Rightarrow> regex" where
  "alts [] = Chr (\<lambda>c. False)"
| "alts [r] = r"
| "alts (r # s # rs) = Alt r (alts (s # rs))"

definition plus :: "regex \<Rightarrow> regex" where
  "plus r = Seq r (Star r)"

definition opt :: "regex \<Rightarrow> regex" where
  "opt r = Alt r Eps"

text \<open>
  A literal character, and a literal letter under the \<open>i\<close> flag.  For a pattern
  character in ASCII and a pattern without the \<open>u\<close> flag, the language's
  canonicalisation never identifies it with a code unit outside ASCII, so the match
  is equality up to ASCII case.
\<close>

definition asciiUpper :: "nat \<Rightarrow> nat" where
  "asciiUpper c = (if 97 \<le> c \<and> c \<le> 122 then c - 32 else c)"

definition ch :: "char \<Rightarrow> regex" where
  "ch c = Chr (\<lambda>d. d = of_char c)"

definition chi :: "char \<Rightarrow> regex" where
  "chi c = Chr (\<lambda>d. asciiUpper d = asciiUpper (of_char c))"

definition lit :: "string \<Rightarrow> regex" where
  "lit s = seqs (map ch s)"

definition liti :: "string \<Rightarrow> regex" where
  "liti s = seqs (map chi s)"

definition ws :: regex where
  "ws = Chr isWhiteSpace"

definition dot :: regex where
  "dot = Chr (\<lambda>c. \<not> isLineTerminator c)"

definition wordc :: regex where
  "wordc = Chr isWordChar"

definition oneOf :: "string \<Rightarrow> regex" where
  "oneOf s = Chr (\<lambda>d. d \<in> of_char ` set s)"

section \<open>Intent classifier (intent-classifier.ts)\<close>

text \<open>
  The Unicode data of the JavaScript engine that the sources rely on: the code points
  with the \<open>Emoji\<close> and \<open>Emoji_Presentation\<close> properties, and \<open>String.prototype.toLowerCase\<close>.
  They are data of the platform, not of the repository, so the model takes them as a
  parameter and the theorems hold for every such table.
\<close>

record Unicode =
  Emoji :: "nat \<Rightarrow> bool"
  Emoji_Presentation :: "nat \<Rightarrow> bool"
  toLowerCase :: "jsstring \<Rightarrow> jsstring"

text \<open>
  The \<open>source\<close> of a pattern, written with \<open>%\<close> for the backslash (which a string
  literal of the logic cannot hold; no pattern of the sources contains \<open>%\<close>).
\<close>

definition src :: "string \<Rightarrow> jsstring" where
  "src s = map (\<lambda>c. if c = CHR ''%'' then 92 else of_char c) s"

definition REs :: "string \<Rightarrow> regex list \<Rightarrow> RegExp" where
  "REs s rs = \<lparr>source = src s, unicode = False, body = seqs rs\<rparr>"

definition trivialWords :: "string list" where
  "trivialWords = [''hi'', ''hey'', ''hello'', ''yo'', ''sup'', ''gm'', ''gn'', ''morning'', ''night'',
     ''thanks'', ''thx'', ''ty'', ''ok'', ''okay'', ''k'', ''yep'', ''yup'', ''nah'', ''nope'', ''lol'',
     ''haha'', ''lmao'', ''brb'', ''gtg'', ''bye'', ''cya'']"

text \<open>The code points and the UTF-16 code units of the emoji listed in the third trivial pattern.\<close>

definition reactionEmoji :: "nat list" where
  "reactionEmoji = [128077, 128078, 10084, 65039, 128293, 128175, 9989, 128591, 128514, 128128, 129300]"

definition reactionEmojiUnits :: jsstring where
  "reactionEmojiUnits = [55357, 56397, 55357, 56398, 10084, 65039, 55357, 56613, 55357, 56495, 9989,
     55357, 56911, 55357, 56834, 55357, 56448, 55358, 56596]"

definition TRIVIAL_PATTERNS :: "Unicode \<Rightarrow> RegExp list" where
  "TRIVIAL_PATTERNS U =
    [REs ''^(hi|hey|hello|yo|sup|gm|gn|morning|night|thanks|thx|ty|ok|okay|k|yep|yup|nah|nope|lol|haha|lmao|brb|gtg|bye|cya)%s*[.!?]*$''
       [Bol, alts (map liti trivialWords), Star ws, Star (oneOf ''.!?''), Eol],
     \<lparr>source = src ''^[%p{Emoji}%s]+$'', unicode = True,
      body = seqs [Bol, plus (UChr (\<lambda>c. Emoji U c \<or> isWhiteSpace c)), Eol]\<rparr>,
     \<lparr>source = js ''^['' @ reactionEmojiUnits @ js '']+$'', unicode = True,
      body = seqs [Bol, plus (UChr (\<lambda>c. c \<in> set reactionEmoji)), Eol]\<rparr>,
     REs ''^(yes|no|y|n|sure|nah)%s*[.!?]*$''
       [Bol, alts (map liti [''yes'', ''no'', ''y'', ''n'', ''sure'', ''nah'']), Star ws,
        Star (oneOf ''.!?''), Eol]]"

definition EXPLICIT_MODEL_PATTERNS :: "RegExp list" where
  "EXPLICIT_MODEL_PATTERNS =
    [REs ''^%/model%s+(opus|sonnet|haiku|gpt|gemini|qwen|llama)''
       [Bol, liti ''/model'', plus ws,
        alts (map liti [''opus'', ''sonnet'', ''haiku'', ''gpt'', ''gemini'', ''qwen'', ''llama''])],
     REs ''%buse%s+(opus|sonnet|gpt-?4|claude)%b''
       [WordB, liti ''use'', plus ws,
        alts [liti ''opus'', liti ''sonnet'', seqs [liti ''gpt'', opt (ch CHR ''-''), ch CHR ''4''],
              liti ''claude''], WordB],
     REs ''%bswitch%s+to%s+(opus|sonnet|haiku)%b''
       [WordB, liti ''switch'', plus ws, liti ''to'', plus ws,
        alts (map liti [''opus'', ''sonnet'', ''haiku'']), WordB]]"

definition FLAGSHIP_PATTERNS :: "RegExp list" where
  "FLAGSHIP_PATTERNS =
    [REs ''%bmock%s+interview%b'' [WordB, liti ''mock'', plus ws, liti ''interview'', WordB],
     REs ''%bfull%s+system%s+design%b''
       [WordB, liti ''full'', plus ws, liti ''system'', plus ws, liti ''design'', WordB],
     REs ''%bdesign%s+.*%s+from%s+scratch%b''
       [WordB, liti ''design'', plus ws, Star dot, plus ws, liti ''from'', plus ws,
        liti ''scratch'', WordB],
     REs ''%barchitect(?:ure)?%s+review%b''
       [WordB, liti ''architect'', opt (liti ''ure''), plus ws, liti ''review'', WordB],
     REs ''%bdeep%s+dive%b'' [WordB, liti ''deep'', plus ws, liti ''dive'', WordB],
     REs ''%bcomprehensive%s+analysis%b''
       [WordB, liti ''comprehensive'', plus ws, liti ''analysis'', WordB],
     REs ''%bwrite%s+a%s+(?:full|complete)%s+(?:implementation|solution)%b''
       [WordB, liti ''write'', plus ws, liti ''a'', plus ws,
        alts [liti ''full'', liti ''complete''], plus ws,
        alts [liti ''implementation'', liti ''solution''], WordB],
     REs ''%bexplain%s+.*%s+in%s+depth%b''
       [WordB, liti ''explain'', plus ws, Star dot, plus ws, liti ''in'', plus ws,
        liti ''depth'', WordB],
     REs ''%bpaper%s+review%b'' [WordB, liti ''paper'', plus ws, liti ''review'', WordB],
     REs ''%bRFC%b'' [WordB, lit ''RFC'', WordB]]"

definition COMPLEX_PATTERNS :: "RegExp list" where
  "COMPLEX_PATTERNS =
    [REs ''%bsystem%s+design%b'' [WordB, liti ''system'', plus ws, liti ''design'', WordB],
     REs ''%bcode%s+review%b'' [WordB, liti ''code'', plus ws, liti ''review'', WordB],
     REs ''%brefactor%b'' [WordB, liti ''refactor'', WordB],
     REs ''%bdebug%b'' [WordB, liti ''debug'', WordB],
     REs ''%bimplement%b'' [WordB, liti ''implement'', WordB],
     REs ''%boptimize%b'' [WordB, liti ''optimize'', WordB],
     REs ''%btrade-?offs?%b''
       [WordB, liti ''trade'', opt (ch CHR ''-''), liti ''off'', opt (chi CHR ''s''), WordB],
     REs ''%bcompare%s+(?:and%s+)?contrast%b''
       [WordB, liti ''compare'', plus ws, opt (seqs [liti ''and'', plus ws]), liti ''contrast'',
        WordB],
     REs ''%bpros?%s+(?:and%s+)?cons?%b''
       [WordB, liti ''pro'', opt (chi CHR ''s''), plus ws, opt (seqs [liti ''and'', plus ws]),
        liti ''con'', opt (chi CHR ''s''), WordB],
     REs ''%bstep%s+by%s+step%b''
       [WordB, liti ''step'', plus ws, liti ''by'', plus ws, liti ''step'', WordB],
     REs ''%bexplain%s+(?:how|why|when)%b''
       [WordB, liti ''explain'', plus ws, alts (map liti [''how'', ''why'', ''when'']), WordB],
     REs ''%bwhat%s+(?:would|should)%s+happen%s+if%b''
       [WordB, liti ''what'', plus ws, alts [liti ''would'', liti ''should''], plus ws,
        liti ''happen'', plus ws, liti ''if'', WordB],
     REs ''```[%s%S]{50,}```''
       [lit ''```'', seqs (replicate 50 (Chr (\<lambda>c. True))), Star (Chr (\<lambda>c. True)), lit ''```''],
     REs ''%b(?:transformer|attention|backprop|gradient|loss%s+function|regularization)%b''
       [WordB,
        alts [liti ''transformer'', liti ''attention'', liti ''backprop'', liti ''gradient'',
              seqs [liti ''loss'', plus ws, liti ''function''], liti ''regularization''], WordB],
     REs ''%b(?:kubernetes|docker|microservice|distributed|consensus|CAP%s+theorem)%b''
       [WordB,
        alts [liti ''kubernetes'', liti ''docker'', liti ''microservice'', liti ''distributed'',
              liti ''consensus'', seqs [liti ''CAP'', plus ws, liti ''theorem'']], WordB]]"

definition SIMPLE_PATTERNS :: "RegExp list" where
  "SIMPLE_PATTERNS =
    [REs ''^what%s+(?:is|are|was|were)%s+%w+%s*%??$''
       [Bol, liti ''what'', plus ws, alts (map liti [''is'', ''are'', ''was'', ''were'']), plus ws,
        plus wordc, Star ws, opt (ch CHR ''?''), Eol],
     REs ''^(?:define|definition%s+of)%s+%w+%s*%??$''
       [Bol, alts [liti ''define'', seqs [liti ''definition'', plus ws, liti ''of'']], plus ws,
        plus wordc, Star ws, opt (ch CHR ''?''), Eol],
     REs ''^how%s+(?:do|does)%s+%w+%s+work%s*%??$''
       [Bol, liti ''how'', plus ws, alts [liti ''do'', liti ''does''], plus ws, plus wordc,
        plus ws, liti ''work'', Star ws, opt (ch CHR ''?''), Eol],
     REs ''^what%s+time%b'' [Bol, liti ''what'', plus ws, liti ''time'', WordB],
     REs ''^what%s+day%b'' [Bol, liti ''what'', plus ws, liti ''day'', WordB],
     REs ''^when%s+is%b'' [Bol, liti ''when'', plus ws, liti ''is'', WordB],
     REs ''^(?:remind|reminder)%b'' [Bol, alts [liti ''remind'', liti ''reminder''], WordB],
     REs ''^(?:translate|convert)%s+''
       [Bol, alts [liti ''translate'', liti ''convert''], plus ws]]"

text \<open>The patterns written inline in \<open>classifyIntent\<close>.\<close>

definition WHITESPACE_RUN :: RegExp where
  "WHITESPACE_RUN = REs ''%s+'' [plus ws]"

definition CODE_FENCE :: RegExp where
  "CODE_FENCE = REs ''```'' [lit ''```'']"

definition QUESTION_MARK :: RegExp where
  "QUESTION_MARK = REs ''%?'' [ch CHR ''?'']"

definition NUMBERED_LIST :: RegExp where
  "NUMBERED_LIST = REs ''^%s*%d+[.)]%s'' [MBol, Star ws, plus (Chr isDigit), oneOf ''.)'', ws]"

record ClassificationSignal =
  name :: jsstring
  weight :: real
  matched :: bool

record ClassificationResult =
  intent :: IntentComplexity
  confidence :: real
  reason :: jsstring
  signals :: "ClassificationSignal list"

text \<open>
  The loop over the flagship and over the complex patterns: every pattern is tested,
  its signal is pushed, and a match adds the weight to the score.  The state is the
  \<open>signals\<close> array and the score.
\<close>

type_synonym scoring = "ClassificationSignal list \<times> real"

fun scorePatterns :: "jsstring \<Rightarrow> real \<Rightarrow> RegExp list \<Rightarrow> jsstring \<Rightarrow> scoring \<Rightarrow> scoring" where
  "scorePatterns pre w [] t st = st"
| "scorePatterns pre w (p # ps) t st =
     (if test p t
      then scorePatterns pre w ps t
             (fst st @ [\<lparr>name = pre @ take 30 (source p), weight = w, matched = True\<rparr>], snd st + w)
      else scorePatterns pre w ps t
             (fst st @ [\<lparr>name = pre @ take 30 (source p), weight = w, matched = False\<rparr>], snd st))"

text \<open>\<open>signals.push({name, weight, matched: true}); complexScore += weight\<close>.\<close>

definition push :: "string \<Rightarrow> real \<Rightarrow> scoring \<Rightarrow> scoring" where
  "push n w st = (fst st @ [\<lparr>name = js n, weight = w, matched = True\<rparr>], snd st + w)"

definition wordCountOf :: "jsstring \<Rightarrow> nat" where
  "wordCountOf trimmed = length (splitRe WHITESPACE_RUN trimmed)"

text \<open>Stage 4: the complex patterns, then the length, code block, question and list signals.\<close>

definition complexStage :: "jsstring \<Rightarrow> ClassificationSignal list \<Rightarrow> scoring" where
  "complexStage trimmed sigs =
     (let st0 = scorePatterns (js ''complex:'') 0.25 COMPLEX_PATTERNS trimmed (sigs, 0);
          wordCount = wordCountOf trimmed;
          st1 = (if wordCount > 100 then push ''long_message'' 0.3 st0
                 else if wordCount > 50 then push ''medium_message'' 0.15 st0 else st0);
          st2 = (if test CODE_FENCE trimmed then push ''code_block'' 0.3 st1 else st1);
          st3 = (if matchCount QUESTION_MARK trimmed \<ge> 2 then push ''multiple_questions'' 0.2 st2
                 else st2)
      in if test NUMBERED_LIST trimmed then push ''numbered_list'' 0.15 st3 else st3)"

definition mkResult ::
  "IntentComplexity \<Rightarrow> real \<Rightarrow> jsstring \<Rightarrow> ClassificationSignal list \<Rightarrow> ClassificationResult" where
  "mkResult i c r sigs = \<lparr>intent = i, confidence = c, reason = r, signals = sigs\<rparr>"

text \<open>The reason of the default, \<open>no strong signal - default to standard\<close>, with its em dash
  (U+2014).\<close>

definition defaultReason :: jsstring where
  "defaultReason = js ''no strong signal '' @ [8212] @ js '' default to standard''"

text \<open>Stages 4 to 6, reached when no flagship pattern matched.\<close>

definition classifyComplex :: "jsstring \<Rightarrow> ClassificationSignal list \<Rightarrow> ClassificationResult" where
  "classifyComplex trimmed sigs =
     (case complexStage trimmed sigs of (signals4, complexScore) \<Rightarrow>
        if complexScore \<ge> 0.5
        then mkResult Complex (min 0.9 (0.5 + complexScore * 0.4))
               (js ''complex signal accumulation'') signals4
        else if list_ex (\<lambda>p. test p trimmed) SIMPLE_PATTERNS
        then mkResult Simple 0.8 (js ''simple pattern match'')
               (signals4 @ [\<lparr>name = js ''simple_pattern'', weight = 0.7, matched = True\<rparr>])
        else if wordCountOf trimmed \<le> 15 \<and> complexScore < 0.25
        then mkResult Simple 0.7 (js ''short message without complexity'')
               (signals4 @ [\<lparr>name = js ''short_no_complexity'', weight = 0.6, matched = True\<rparr>])
        else mkResult Standard 0.6 defaultReason signals4)"

text \<open>
  \<open>classifyIntent\<close>.  A loop that returns the same value at the first matching
  pattern is the test whether some pattern of the list matches.
\<close>

definition classifyIntent :: "Unicode \<Rightarrow> jsstring \<Rightarrow> ClassificationResult" where
  "classifyIntent U msg =
     (let trimmed = trim msg in
      if length trimmed = 0
      then mkResult Trivial 1 (js ''empty message'') []
      else if list_ex (\<lambda>p. test p trimmed) EXPLICIT_MODEL_PATTERNS
      then mkResult Explicit 1 (js ''explicit model request'')
             [\<lparr>name = js ''explicit_model_request'', weight = 1, matched = True\<rparr>]
      else if list_ex (\<lambda>p. test p trimmed) (TRIVIAL_PATTERNS U)
      then mkResult Trivial 0.95 (js ''trivial pattern match'')
             [\<lparr>name = js ''trivial_pattern'', weight = 1, matched = True\<rparr>]
      else if length trimmed < 10 \<and> \<not> jsIncludes trimmed (js ''?'')
      then mkResult Trivial 0.8 (js ''very short non-question'')
             [\<lparr>name = js ''very_short'', weight = 0.8, matched = True\<rparr>]
      else (case scorePatterns (js ''flagship:'') 0.4 FLAGSHIP_PATTERNS trimmed ([], 0) of
              (signals3, flagshipScore) \<Rightarrow>
                if flagshipScore \<ge> 0.4
                then mkResult Flagship (min 0.95 (0.6 + flagshipScore))
                       (js ''flagship keyword match'') signals3
                else classifyComplex trimmed signals3))"

section \<open>Prompt adapter (prompt-adapter.ts)\<close>

record AdaptedPrompt =
  systemPrompt :: "jsstring option"
  userPreamble :: "jsstring option"
  tier :: ModelTierId
  wasAdapted :: bool

text \<open>The set of strippable headers; \<open>headers.has(raw)\<close> is membership in the list.\<close>

definition STRIPPABLE_SECTION_HEADERS :: "jsstring list" where
  "STRIPPABLE_SECTION_HEADERS =
     map js [''tools'', ''available tools'', ''tool usage'', ''memory'', ''workspace files'',
       ''every session'', ''heartbeats'', ''group chats'', ''react like a human'',
       ''heartbeats - be proactive'', ''know when to speak'', ''react like a human'']"

definition nl :: regex where
  "nl = Chr (\<lambda>c. c = 10)"

definition BOILERPLATE_PHRASES :: "RegExp list" where
  "BOILERPLATE_PHRASES =
    [REs ''Don't ask permission%. Just do it%.%n?''
       [lit ''Don't ask permission. Just do it.'', opt nl],
     REs ''You wake up fresh each session%..*?%n''
       [lit ''You wake up fresh each session.'', LazyStar dot, nl],
     REs ''This file is yours to evolve%..*?%n''
       [lit ''This file is yours to evolve.'', LazyStar dot, nl]]"

definition BLANK_LINES :: RegExp where
  "BLANK_LINES = REs ''%n{3,}'' [nl, nl, nl, Star nl]"

text \<open>
  The header pattern \<open>^(#{1,3})\s+(.+)$\<close> of \<open>stripSectionsByHeader\<close>, in two parts: the
  anchor, the hashes and the white space, and then the second group up to the end of
  the line.  The matcher takes the first end of the first part, in its backtracking
  order, from which the second part matches; the second group is then the whole rest
  of the line.  (The pattern starts with \<open>^\<close>, so a match starts at the first code unit.)
\<close>

definition HEADER_PREFIX :: regex where
  "HEADER_PREFIX = seqs [Bol, ch CHR ''#'', opt (Seq (ch CHR ''#'') (opt (ch CHR ''#''))), plus ws]"

definition HEADER_TEXT :: regex where
  "HEADER_TEXT = seqs [plus dot, Eol]"

definition headerMatch :: "jsstring \<Rightarrow> jsstring option" where
  "headerMatch line =
     (case filter (\<lambda>q. ends HEADER_TEXT q \<noteq> []) (ends HEADER_PREFIX (None, line)) of
        [] \<Rightarrow> None
      | q # qs \<Rightarrow> Some (snd q))"

definition LEADING_EMOJI :: "Unicode \<Rightarrow> RegExp" where
  "LEADING_EMOJI U =
     \<lparr>source = src ''^[%p{Emoji}%p{Emoji_Presentation}%s]+'', unicode = True,
      body = seqs [Bol, plus (UChr (\<lambda>c. Emoji U c \<or> Emoji_Presentation U c \<or> isWhiteSpace c))]\<rparr>"

definition TRAILING_PUNCTUATION :: RegExp where
  "TRAILING_PUNCTUATION = REs ''[!?.]+$'' [plus (oneOf ''!?.''), Eol]"

text \<open>The normalisation of a header text: lower case, leading emoji and white space
  removed, trailing punctuation removed, trimmed.\<close>

definition normalizeHeader :: "Unicode \<Rightarrow> jsstring \<Rightarrow> jsstring" where
  "normalizeHeader U g =
     trim (replaceFirst TRAILING_PUNCTUATION []
             (replaceFirst (LEADING_EMOJI U) [] (toLowerCase U g)))"

text \<open>The loop of \<open>stripSectionsByHeader\<close> over the lines; the state is \<open>skipping\<close> and \<open>result\<close>.\<close>

fun stripLoop :: "Unicode \<Rightarrow> jsstring list \<Rightarrow> jsstring list \<Rightarrow> bool \<Rightarrow> jsstring list \<Rightarrow> jsstring list" where
  "stripLoop U headers [] skipping result = result"
| "stripLoop U headers (line # lines) skipping result =
     (case headerMatch line of
        Some g \<Rightarrow>
          if normalizeHeader U g \<in> set headers then stripLoop U headers lines True result
          else stripLoop U headers lines False (result @ [line])
      | None \<Rightarrow>
          if skipping then stripLoop U headers lines skipping result
          else stripLoop U headers lines skipping (result @ [line]))"

definition stripSectionsByHeader :: "Unicode \<Rightarrow> jsstring \<Rightarrow> jsstring list \<Rightarrow> jsstring" where
  "stripSectionsByHeader U prompt headers =
     joinWith 10 (stripLoop U headers (splitOn 10 prompt) False [])"

definition SECTION_HEADER :: RegExp where
  "SECTION_HEADER = REs ''^##?%s'' [Bol, ch CHR ''#'', opt (ch CHR ''#''), ws]"

definition CORE_TOPICS :: "RegExp list" where
  "CORE_TOPICS =
    [REs ''core%s+truths'' [liti ''core'', plus ws, liti ''truths''],
     REs ''coach'' [liti ''coach''],
     REs ''who%s+you%s+are'' [liti ''who'', plus ws, liti ''you'', plus ws, liti ''are''],
     REs ''role'' [liti ''role''],
     REs ''vibe'' [liti ''vibe'']]"

text \<open>The loop of \<open>extractCorePersona\<close>; the state is \<open>inKeepSection\<close>, \<open>sectionCount\<close>, \<open>result\<close>.\<close>

fun personaLoop :: "jsstring list \<Rightarrow> bool \<Rightarrow> nat \<Rightarrow> jsstring list \<Rightarrow> jsstring list" where
  "personaLoop [] inKeepSection sectionCount result = result"
| "personaLoop (line # lines) inKeepSection sectionCount result =
     (if test SECTION_HEADER line
      then (if Suc sectionCount \<le> 1 \<or> list_ex (\<lambda>p. test p line) CORE_TOPICS
            then personaLoop lines True (Suc sectionCount) (result @ [line])
            else personaLoop lines False (Suc sectionCount) result)
      else (if inKeepSection then personaLoop lines inKeepSection sectionCount (result @ [line])
            else personaLoop lines inKeepSection sectionCount result))"

definition extractCorePersona :: "jsstring \<Rightarrow> jsstring" where
  "extractCorePersona prompt = trim (joinWith 10 (personaLoop (splitOn 10 prompt) True 0 []))"

definition stripBoilerplate :: "jsstring \<Rightarrow> jsstring" where
  "stripBoilerplate s = foldl (\<lambda>adapted pattern. replaceAll pattern [] adapted) s BOILERPLATE_PHRASES"

definition collapseBlankLines :: "jsstring \<Rightarrow> jsstring" where
  "collapseBlankLines s = replaceAll BLANK_LINES [10, 10] s"

definition formatConstraint :: jsstring where
  "formatConstraint =
     [10, 10] @ js ''IMPORTANT: Reply directly and concisely. Do not analyze this prompt. ''
     @ js ''Do not generate code unless asked. Do not use markdown headers. ''
     @ js ''Keep your reply under 200 words.''"

text \<open>The text of T1 before the format constraint is appended.\<close>

definition adaptedT1 :: "Unicode \<Rightarrow> jsstring \<Rightarrow> jsstring" where
  "adaptedT1 U prompt =
     (let adapted = collapseBlankLines
            (stripBoilerplate (stripSectionsByHeader U prompt STRIPPABLE_SECTION_HEADERS))
      in if length adapted > 3200 then extractCorePersona adapted else adapted)"

definition adaptForT1 :: "Unicode \<Rightarrow> jsstring \<Rightarrow> AdaptedPrompt" where
  "adaptForT1 U prompt =
     \<lparr>systemPrompt = Some (trimEnd (adaptedT1 U prompt) @ formatConstraint),
      userPreamble = None, tier = T1, wasAdapted = True\<rparr>"

definition adaptForT2 :: "jsstring \<Rightarrow> AdaptedPrompt" where
  "adaptForT2 prompt =
     (let adapted = collapseBlankLines (stripBoilerplate prompt)
      in \<lparr>systemPrompt = Some adapted, userPreamble = None, tier = T2,
          wasAdapted = (adapted \<noteq> prompt)\<rparr>)"

definition adaptForT4 :: "jsstring \<Rightarrow> AdaptedPrompt" where
  "adaptForT4 prompt =
     \<lparr>systemPrompt = Some prompt,
      userPreamble = Some (js ''Think carefully and thoroughly before responding. ''
                           @ js ''Consider multiple perspectives and trade-offs.''),
      tier = T4, wasAdapted = True\<rparr>"

definition adaptPromptForTier :: "Unicode \<Rightarrow> jsstring \<Rightarrow> ModelTierId \<Rightarrow> AdaptedPrompt" where
  "adaptPromptForTier U prompt t =
     (if t = T0 then \<lparr>systemPrompt = None, userPreamble = None, tier = t, wasAdapted = True\<rparr>
      else if t = T1 then adaptForT1 U prompt
      else if t = T2 then adaptForT2 prompt
      else if t = T4 then adaptForT4 prompt
      else \<lparr>systemPrompt = Some prompt, userPreamble = None, tier = T3, wasAdapted = False\<rparr>)"

section \<open>Router (intelligent-router.ts)\<close>

record RoutingDecision =
  model :: ModelRef
  tier :: ModelTierId
  originalTier :: ModelTierId
  classification :: ClassificationResult
  adaptedPrompt :: AdaptedPrompt
  bypassed :: bool
  bypassReason :: "jsstring option"

definition resolveEndpoint :: "jsstring \<Rightarrow> MoltbotConfig \<Rightarrow> jsstring option" where
  "resolveEndpoint prov config =
     (case Option.bind (modelsProviders config prov) baseUrl of
        Some url \<Rightarrow> Some url
      | None \<Rightarrow>
          if prov = js ''anthropic'' then Some (js ''https://api.anthropic.com'')
          else if prov = js ''openai'' then Some (js ''https://api.openai.com'')
          else None)"

text \<open>
  \<open>recordAnalytics\<close>: without a logger nothing happens; otherwise the event is appended
  to the sink.  \<open>now\<close> is the time stamp \<open>new Date().toISOString()\<close>.
\<close>

definition analyticsEvent :: "jsstring \<Rightarrow> RouterParams \<Rightarrow> RoutingDecision \<Rightarrow> RoutingAnalyticsEvent" where
  "analyticsEvent now params decision =
     \<lparr>RoutingAnalyticsEvent.ts = now,
      RoutingAnalyticsEvent.event = (if bypassed decision then Override
               else if tier decision \<noteq> originalTier decision then BudgetDowngrade else Route),
      RoutingAnalyticsEvent.intent = ClassificationResult.intent (classification decision),
      RoutingAnalyticsEvent.confidence = ClassificationResult.confidence (classification decision),
      RoutingAnalyticsEvent.tier = tier decision,
      RoutingAnalyticsEvent.originalTier = (if tier decision \<noteq> originalTier decision then Some (originalTier decision) else None),
      RoutingAnalyticsEvent.provider = ModelRef.provider (model decision),
      RoutingAnalyticsEvent.model = ModelRef.model (model decision),
      RoutingAnalyticsEvent.endpoint = resolveEndpoint (ModelRef.provider (model decision)) (cfg params),
      RoutingAnalyticsEvent.sessionId = sessionId params,
      RoutingAnalyticsEvent.channel = channel params,
      RoutingAnalyticsEvent.messageLength = length (message params),
      RoutingAnalyticsEvent.latencyMs = None,
      RoutingAnalyticsEvent.responseSize = None,
      RoutingAnalyticsEvent.estimatedCostUsd = (if costPer1kInput (tier decision) > 0
                          then Some (costPer1kInput (tier decision) * 0.5) else None),
      RoutingAnalyticsEvent.classifierReason = Some (reason (classification decision)),
      RoutingAnalyticsEvent.promptAdapted = wasAdapted (adaptedPrompt decision)\<rparr>"

definition recordAnalytics ::
  "jsstring \<Rightarrow> RouterParams \<Rightarrow> RoutingDecision \<Rightarrow> RoutingAnalyticsLogger option" where
  "recordAnalytics now params decision =
     (case analytics params of
        None \<Rightarrow> None
      | Some sink \<Rightarrow> Some (sink @ [analyticsEvent now params decision]))"

text \<open>
  \<open>routeMessage\<close> returns the decision, together with the logger's sink after the call.
  The result is \<open>None\<close> only if \<open>applyBias\<close> read outside \<open>TIER_ORDER\<close>.
\<close>

definition routeMessage ::
  "Unicode \<Rightarrow> ModelSelection \<Rightarrow> jsstring \<Rightarrow> RouterParams
     \<Rightarrow> (RoutingDecision \<times> RoutingAnalyticsLogger option) option" where
  "routeMessage U M now params =
     (case sessionModelOverride params of
        Some override \<Rightarrow>
          (let decision =
             \<lparr>model = override, tier = T3, originalTier = T3,
              classification = classifyIntent U (message params),
              adaptedPrompt = adaptPromptForTier U (RouterParams.systemPrompt params) T3,
              bypassed = True, bypassReason = Some (js ''session model override'')\<rparr>
           in Some (decision, recordAnalytics now params decision))
      | None \<Rightarrow>
          (let cls = classifyIntent U (message params) in
           if ClassificationResult.intent cls = Explicit
           then (let decision =
                   \<lparr>model = resolveModelForTier M T3 (routingConfig params) (cfg params),
                    tier = T3, originalTier = T3, classification = cls,
                    adaptedPrompt = adaptPromptForTier U (RouterParams.systemPrompt params) T3,
                    bypassed = True,
                    bypassReason = Some (js ''explicit model request in message'')\<rparr>
                 in Some (decision, recordAnalytics now params decision))
           else (let minTier = resolveMinTierForIntent (ClassificationResult.intent cls) in
                 case applyBias minTier
                        (case bias (routingConfig params) of None \<Rightarrow> Balanced | Some b \<Rightarrow> b) of
                   None \<Rightarrow> None
                 | Some biasedTier \<Rightarrow>
                     (let budgetTier = applyBudgetConstraints biasedTier (routingConfig params);
                          decision =
                            \<lparr>model = resolveModelForTier M budgetTier (routingConfig params) (cfg params),
                             tier = budgetTier, originalTier = minTier, classification = cls,
                             adaptedPrompt =
                               adaptPromptForTier U (RouterParams.systemPrompt params) budgetTier,
                             bypassed = False, bypassReason = None\<rparr>
                      in Some (decision, recordAnalytics now params decision)))))"

section \<open>The claims' vocabulary and the fixtures of the tests\<close>

text \<open>
  The budget rules in the words of the specification: a cap is exceeded when the cap is
  set, the matching \<open>currentSpend\<close> field is present, and the spend has reached the cap.
\<close>

definition dailyCapExceeded :: "RoutingBudgetConfig \<Rightarrow> bool" where
  "dailyCapExceeded b =
     (case dailyCapUsd b of None \<Rightarrow> False
      | Some cap \<Rightarrow> (case currentSpend b of None \<Rightarrow> False
          | Some cs \<Rightarrow> (case dailyUsd cs of None \<Rightarrow> False | Some spent \<Rightarrow> cap \<le> spent)))"

definition monthlyCapExceeded :: "RoutingBudgetConfig \<Rightarrow> bool" where
  "monthlyCapExceeded b =
     (case monthlyCapUsd b of None \<Rightarrow> False
      | Some cap \<Rightarrow> (case currentSpend b of None \<Rightarrow> False
          | Some cs \<Rightarrow> (case monthlyUsd cs of None \<Rightarrow> False | Some spent \<Rightarrow> cap \<le> spent)))"

text \<open>
  Modelled from the spec: \<open>parseModelRef\<close> of model-selection.js, which is not among the
  sources.  The specification gives the format \<open>provider/model-identifier\<close>, split on
  the first \<open>/\<close> only, an absent separator falling back to the default provider; a
  string with an empty part is malformed.  It serves as the parser of the fixtures
  below; the theorems hold for every parser.
\<close>

definition specParseModelRef :: "jsstring \<Rightarrow> jsstring \<Rightarrow> ModelRef option" where
  "specParseModelRef raw defaultProvider =
     (let t = trim raw in
      if t = [] then None
      else if 47 \<notin> set t then Some \<lparr>provider = defaultProvider, model = t\<rparr>
      else (let p = trim (takeWhile (\<lambda>c. c \<noteq> 47) t);
                m = trim (tl (dropWhile (\<lambda>c. c \<noteq> 47) t))
            in if p = [] \<or> m = [] then None else Some \<lparr>provider = p, model = m\<rparr>))"

definition fixtureSelection :: ModelSelection where
  "fixtureSelection = \<lparr>parseModelRef = specParseModelRef, DEFAULT_PROVIDER = js ''anthropic''\<rparr>"

text \<open>\<open>baseCfg\<close> and \<open>baseRoutingConfig\<close> of intelligent-router.test.ts.\<close>

definition baseCfg :: MoltbotConfig where
  "baseCfg = \<lparr>agentsDefaultsModel = Some (ModelObject (Some (js ''anthropic/claude-sonnet-4-5''))),
              modelsProviders = Map.empty\<rparr>"

definition baseRoutingConfig :: IntelligentRoutingConfig where
  "baseRoutingConfig =
     \<lparr>enabled = Some True, bias = Some Balanced,
      tiers = [T1 \<mapsto> \<lparr>tierModel = js ''ollama/qwen2.5:7b'', maxTokens = None\<rparr>,
               T2 \<mapsto> \<lparr>tierModel = js ''anthropic/claude-sonnet-4-5'', maxTokens = None\<rparr>,
               T3 \<mapsto> \<lparr>tierModel = js ''anthropic/claude-sonnet-4-5'', maxTokens = None\<rparr>,
               T4 \<mapsto> \<lparr>tierModel = js ''anthropic/claude-opus-4-5'', maxTokens = None\<rparr>],
      budget = None, analyticsFlag = None, analyticsPath = None\<rparr>"

definition emptyBudget :: RoutingBudgetConfig where
  "emptyBudget = \<lparr>dailyCapUsd = None, monthlyCapUsd = None, preferFree = None, currentSpend = None\<rparr>"

text \<open>The budgets of the router's tests: preferFree, a daily cap of 1.0 with 1.5 spent,
  a monthly cap of 10 with 12 spent, a daily cap of 5 with 0.5 spent, and a daily cap
  with no \<open>currentSpend\<close>.\<close>

definition budgetPreferFree :: RoutingBudgetConfig where
  "budgetPreferFree = emptyBudget\<lparr>preferFree := Some True\<rparr>"

definition budgetDailyOver :: RoutingBudgetConfig where
  "budgetDailyOver = emptyBudget\<lparr>dailyCapUsd := Some 1,
     currentSpend := Some \<lparr>dailyUsd = Some (3 / 2), monthlyUsd = None\<rparr>\<rparr>"

definition budgetMonthlyOver :: RoutingBudgetConfig where
  "budgetMonthlyOver = emptyBudget\<lparr>monthlyCapUsd := Some 10,
     currentSpend := Some \<lparr>dailyUsd = None, monthlyUsd = Some 12\<rparr>\<rparr>"

definition budgetDailyUnder :: RoutingBudgetConfig where
  "budgetDailyUnder = emptyBudget\<lparr>dailyCapUsd := Some 5,
     currentSpend := Some \<lparr>dailyUsd = Some (1 / 2), monthlyUsd = None\<rparr>\<rparr>"

definition budgetNoSpend :: RoutingBudgetConfig where
  "budgetNoSpend = emptyBudget\<lparr>dailyCapUsd := Some 1\<rparr>"

definition withBudget :: "RoutingBudgetConfig \<Rightarrow> IntelligentRoutingConfig" where
  "withBudget b = baseRoutingConfig\<lparr>budget := Some b\<rparr>"

definition malformedRoutingConfig :: IntelligentRoutingConfig where
  "malformedRoutingConfig =
     baseRoutingConfig\<lparr>tiers := [T3 \<mapsto> \<lparr>tierModel = js ''/'', maxTokens = None\<rparr>]\<rparr>"

definition noTiersRoutingConfig :: IntelligentRoutingConfig where
  "noTiersRoutingConfig = baseRoutingConfig\<lparr>tiers := Map.empty\<rparr>"

definition emptyCfg :: MoltbotConfig where
  "emptyCfg = \<lparr>agentsDefaultsModel = None, modelsProviders = Map.empty\<rparr>"

text \<open>
  A Unicode table for the examples.  On ASCII it is the Unicode data: the \<open>Emoji\<close>
  property holds of \<open>#\<close>, \<open>*\<close> and the digits, \<open>Emoji_Presentation\<close> of no ASCII
  character, and \<open>toLowerCase\<close> maps \<open>A\<close>-\<open>Z\<close> to \<open>a\<close>-\<open>z\<close>.  Beyond ASCII it only lists
  the reactions of the third trivial pattern; every example below is ASCII.
\<close>

definition fixtureUnicode :: Unicode where
  "fixtureUnicode =
     \<lparr>Emoji = (\<lambda>c. c = 35 \<or> c = 42 \<or> isDigit c
          \<or> c \<in> {128077, 128078, 10084, 128293, 128175, 9989, 128591, 128514, 128128, 129300}),
      Emoji_Presentation =
        (\<lambda>c. c \<in> {128077, 128078, 128293, 128175, 9989, 128591, 128514, 128128, 129300}),
      toLowerCase = map (\<lambda>c. if 65 \<le> c \<and> c \<le> 90 then c + 32 else c)\<rparr>"

text \<open>The characters of the digit claim: an ASCII digit or white space.\<close>

definition digitOrSpace :: "nat \<Rightarrow> bool" where
  "digitOrSpace c = (isDigit c \<or> isWhiteSpace c)"

section \<open>The checks of the classifier and the stages of its signals\<close>

text \<open>
  A check is one condition that \<open>classifyIntent\<close> evaluates: the empty-message test, a
  pattern test, or a heuristic condition.  \<open>checksPerformed\<close> lists the checks in the
  order in which the function evaluates them, with their outcome, following its control
  flow: a loop that returns at the first match (explicit, trivial, simple) tests the
  patterns up to the first match; the flagship and complex loops test every pattern;
  \<open>wordCount > 50\<close> is only evaluated when \<open>wordCount > 100\<close> fails.  The stage is the
  number in the comments of the source (0 for the empty-message test).
\<close>

datatype checkKind = EmptyCheck | FirstMatch | Scored | Heuristic

record check =
  kind :: checkKind
  stageNo :: nat
  label :: jsstring
  points :: real
  outcome :: bool

fun firstMatch :: "nat \<Rightarrow> string \<Rightarrow> real \<Rightarrow> RegExp list \<Rightarrow> jsstring \<Rightarrow> check list" where
  "firstMatch st n w [] t = []"
| "firstMatch st n w (p # ps) t =
     (if test p t
      then [\<lparr>kind = FirstMatch, stageNo = st, label = js n, points = w, outcome = True\<rparr>]
      else \<lparr>kind = FirstMatch, stageNo = st, label = js n, points = w, outcome = False\<rparr>
           # firstMatch st n w ps t)"

definition scored :: "nat \<Rightarrow> jsstring \<Rightarrow> real \<Rightarrow> RegExp list \<Rightarrow> jsstring \<Rightarrow> check list" where
  "scored st pre w ps t =
     map (\<lambda>p. \<lparr>kind = Scored, stageNo = st, label = pre @ take 30 (source p), points = w,
               outcome = test p t\<rparr>) ps"

definition heuristic :: "nat \<Rightarrow> string \<Rightarrow> real \<Rightarrow> bool \<Rightarrow> check" where
  "heuristic st n w b = \<lparr>kind = Heuristic, stageNo = st, label = js n, points = w, outcome = b\<rparr>"

definition checksComplex :: "jsstring \<Rightarrow> check list" where
  "checksComplex t =
     scored 4 (js ''complex:'') 0.25 COMPLEX_PATTERNS t
     @ [heuristic 4 ''long_message'' 0.3 (wordCountOf t > 100)]
     @ (if wordCountOf t > 100 then []
        else [heuristic 4 ''medium_message'' 0.15 (wordCountOf t > 50)])
     @ [heuristic 4 ''code_block'' 0.3 (test CODE_FENCE t),
        heuristic 4 ''multiple_questions'' 0.2 (matchCount QUESTION_MARK t \<ge> 2),
        heuristic 4 ''numbered_list'' 0.15 (test NUMBERED_LIST t)]
     @ (if snd (complexStage t []) \<ge> 0.5 then []
        else firstMatch 5 ''simple_pattern'' 0.7 SIMPLE_PATTERNS t
             @ (if list_ex (\<lambda>p. test p t) SIMPLE_PATTERNS then []
                else [heuristic 5 ''short_no_complexity'' 0.6
                        (wordCountOf t \<le> 15 \<and> snd (complexStage t []) < 0.25)]))"

definition checksPerformed :: "Unicode \<Rightarrow> jsstring \<Rightarrow> check list" where
  "checksPerformed U msg =
     (let t = trim msg in
      \<lparr>kind = EmptyCheck, stageNo = 0, label = js ''empty'', points = 1, outcome = (length t = 0)\<rparr>
      # (if length t = 0 then []
         else firstMatch 1 ''explicit_model_request'' 1 EXPLICIT_MODEL_PATTERNS t
         @ (if list_ex (\<lambda>p. test p t) EXPLICIT_MODEL_PATTERNS then []
            else firstMatch 2 ''trivial_pattern'' 1 (TRIVIAL_PATTERNS U) t
            @ (if list_ex (\<lambda>p. test p t) (TRIVIAL_PATTERNS U) then []
               else heuristic 2 ''very_short'' 0.8 (length t < 10 \<and> \<not> jsIncludes t (js ''?''))
               # (if length t < 10 \<and> \<not> jsIncludes t (js ''?'') then []
                  else scored 3 (js ''flagship:'') 0.4 FLAGSHIP_PATTERNS t
                  @ (if snd (scorePatterns (js ''flagship:'') 0.4 FLAGSHIP_PATTERNS t ([], 0)) \<ge> 0.4
                     then [] else checksComplex t))))))"

text \<open>
  The signal of a check, and the checks that leave a signal: every test of a flagship
  or complex pattern, and every other check that succeeded, except the empty-message
  test.
\<close>

definition signalOf :: "check \<Rightarrow> ClassificationSignal" where
  "signalOf c = \<lparr>name = label c, weight = points c, matched = outcome c\<rparr>"

definition recorded :: "check \<Rightarrow> bool" where
  "recorded c = (kind c = Scored \<or> (outcome c \<and> kind c \<noteq> EmptyCheck))"

text \<open>
  The stage a signal belongs to, read from its name, and the stage that decided a
  result, read from its reason (6 is the default; a name that is not a signal name of
  the source belongs to no stage and gets 7).
\<close>

definition signalStage :: "jsstring \<Rightarrow> nat" where
  "signalStage n =
     (if n = js ''explicit_model_request'' then 1
      else if n = js ''trivial_pattern'' \<or> n = js ''very_short'' then 2
      else if startsWith n (js ''flagship:'') then 3
      else if startsWith n (js ''complex:'') \<or> n = js ''long_message'' \<or> n = js ''medium_message''
              \<or> n = js ''code_block'' \<or> n = js ''multiple_questions'' \<or> n = js ''numbered_list''
           then 4
      else if n = js ''simple_pattern'' \<or> n = js ''short_no_complexity'' then 5
      else 7)"

definition decidingStage :: "ClassificationResult \<Rightarrow> nat" where
  "decidingStage r =
     (if reason r = js ''empty message'' then 0
      else if reason r = js ''explicit model request'' then 1
      else if reason r = js ''trivial pattern match'' \<or> reason r = js ''very short non-question''
           then 2
      else if reason r = js ''flagship keyword match'' then 3
      else if reason r = js ''complex signal accumulation'' then 4
      else if reason r = js ''simple pattern match''
              \<or> reason r = js ''short message without complexity'' then 5
      else 6)"

text \<open>The signals that the length, code block, question and list conditions of stage 4 push.\<close>

definition heuristicSignals :: "jsstring \<Rightarrow> ClassificationSignal list" where
  "heuristicSignals t =
     (if wordCountOf t > 100 then [\<lparr>name = js ''long_message'', weight = 0.3, matched = True\<rparr>]
      else if wordCountOf t > 50 then [\<lparr>name = js ''medium_message'', weight = 0.15, matched = True\<rparr>]
      else [])
     @ (if test CODE_FENCE t then [\<lparr>name = js ''code_block'', weight = 0.3, matched = True\<rparr>] else [])
     @ (if matchCount QUESTION_MARK t \<ge> 2
        then [\<lparr>name = js ''multiple_questions'', weight = 0.2, matched = True\<rparr>] else [])
     @ (if test NUMBERED_LIST t then [\<lparr>name = js ''numbered_list'', weight = 0.15, matched = True\<rparr>]
        else [])"

section \<open>Sections of a prompt, in the words of the specification\<close>

text \<open>
  A header line is a line that the header pattern matches; it is strippable when its
  normalised text is, exactly, an element of the given set.  A section spans from a
  header line to the line before the next header line or to the end; the lines before
  the first header line form a preamble.  \<open>sectionsOf\<close> cuts the lines into the
  preamble (possibly empty) followed by the sections, and \<open>keepSections\<close> removes the
  sections whose header is strippable.
\<close>

definition isHeaderLine :: "jsstring \<Rightarrow> bool" where
  "isHeaderLine line = (headerMatch line \<noteq> None)"

definition strippableLine :: "Unicode \<Rightarrow> jsstring list \<Rightarrow> jsstring \<Rightarrow> bool" where
  "strippableLine U headers line =
     (case headerMatch line of None \<Rightarrow> False | Some g \<Rightarrow> normalizeHeader U g \<in> set headers)"

fun sectionsOf :: "jsstring list \<Rightarrow> jsstring list list" where
  "sectionsOf [] = [[]]"
| "sectionsOf (line # lines) =
     (case sectionsOf lines of
        [] \<Rightarrow> [[line]]
      | s # ss \<Rightarrow> if isHeaderLine line then [] # (line # s) # ss else (line # s) # ss)"

definition keptSection :: "Unicode \<Rightarrow> jsstring list \<Rightarrow> jsstring list \<Rightarrow> bool" where
  "keptSection U headers sec =
     (case sec of [] \<Rightarrow> True | line # lines \<Rightarrow> \<not> strippableLine U headers line)"

definition keepSections :: "Unicode \<Rightarrow> jsstring list \<Rightarrow> jsstring list \<Rightarrow> jsstring list" where
  "keepSections U headers lines = concat (filter (keptSection U headers) (sectionsOf lines))"

text \<open>A run of three newlines in a text; in a list of lines it shows as a line followed
  by two empty lines and a further line.\<close>

definition tripleNewline :: "jsstring \<Rightarrow> bool" where
  "tripleNewline s = jsIncludes s [10, 10, 10]"

fun twoBlankThenLine :: "jsstring list \<Rightarrow> bool" where
  "twoBlankThenLine (a # b # y # rest) = (a = [] \<and> b = [])"
| "twoBlankThenLine ls = False"

fun blankWindow :: "jsstring list \<Rightarrow> bool" where
  "blankWindow [] = False"
| "blankWindow (x # post) = (twoBlankThenLine post \<or> blankWindow post)"

text \<open>The number of newlines at the start of a text.\<close>

definition leadNl :: "jsstring \<Rightarrow> nat" where
  "leadNl s = length (takeWhile (\<lambda>c. c = 10) s)"

text \<open>A prompt in which one section has an allow-listed header and the next one a header
  that merely resembles it.\<close>

definition promptWithLookalike :: jsstring where
  "promptWithLookalike =
     joinWith 10 (map js [''# Persona'', ''## Tools'', ''Use tools.'', ''## Tools Section'',
       ''My own notes.''])"

text \<open>A prompt in which removing a section leaves a run of four newlines.\<close>

definition promptWithBlankRun :: jsstring where
  "promptWithBlankRun =
     joinWith 10 (map js [''# Persona'', [], [], [], ''## Tools'', ''Use tools.''])"

text \<open>A prompt whose only section has a header outside the allow-list and holds a
  boilerplate phrase, and a prompt in which that phrase is nested in itself.\<close>

definition promptWithBoilerplate :: jsstring where
  "promptWithBoilerplate = js ''## Notes'' @ [10] @ js ''Don't ask permission. Just do it.''"

definition promptNestedBoilerplate :: jsstring where
  "promptNestedBoilerplate =
     js ''Don't ask permission. Just do '' @ js ''Don't ask permission. Just do it.''
     @ js ''it.''"

text \<open>Router parameters of the tests: the message \<open>hi\<close>, with and without a session override.\<close>

definition paramsHi :: RouterParams where
  "paramsHi =
     \<lparr>message = js ''hi'', systemPrompt = js ''You are helpful.'', cfg = baseCfg,
      routingConfig = baseRoutingConfig, sessionModelOverride = None, channel = None,
      sessionId = None, analytics = None\<rparr>"

definition paramsOverride :: RouterParams where
  "paramsOverride =
     paramsHi\<lparr>sessionModelOverride :=
       Some \<lparr>ModelRef.provider = js ''anthropic'', ModelRef.model = js ''claude-opus-4-5''\<rparr>\<rparr>"

section \<open>Properties of the t registry and the router helpers\<close>

lemma tierIndex_simps:
  "tierIndex T0 = 0" "tierIndex T1 = 1" "tierIndex T2 = 2" "tierIndex T3 = 3" "tierIndex T4 = 4"
  by (simp_all add: tierIndex_def TIER_ORDER_def)

lemma arrayAt_TIER_ORDER:
  "arrayAt TIER_ORDER 0 = Some T0" "arrayAt TIER_ORDER 1 = Some T1" "arrayAt TIER_ORDER 2 = Some T2"
  "arrayAt TIER_ORDER 3 = Some T3" "arrayAt TIER_ORDER 4 = Some T4"
  by (simp_all add: arrayAt_def TIER_ORDER_def)

text \<open>
  C8.  Bias shift.  \<open>balanced\<close> is the identity; \<open>cost\<close> returns the tier one index
  lower unless the index is at most 1, where the tier is returned unchanged; \<open>quality\<close>
  returns the tier one index higher unless the index is at least 4, where the tier is
  returned unchanged.  Every array read is in range, so the result is always a tier
  of \<open>TIER_ORDER\<close>, with an index between 0 and 4.
\<close>

theorem applyBias_shift:
  "applyBias t Balanced = Some t
   \<and> applyBias t Cost = (if tierIndex t \<le> 1 then Some t else arrayAt TIER_ORDER (tierIndex t - 1))
   \<and> applyBias t Quality = (if tierIndex t \<ge> 4 then Some t else arrayAt TIER_ORDER (tierIndex t + 1))
   \<and> (\<exists>r. applyBias t b = Some r \<and> r \<in> set TIER_ORDER \<and> 0 \<le> tierIndex r \<and> tierIndex r \<le> 4
        \<and> tierIndex r = (if b = Cost \<and> tierIndex t > 1 then tierIndex t - 1
                          else if b = Quality \<and> tierIndex t < 4 then tierIndex t + 1
                          else tierIndex t))"
  by (cases t; cases b; simp add: applyBias_def tierIndex_simps arrayAt_TIER_ORDER; simp add: TIER_ORDER_def)

text \<open>
  C3.  Budget clamp.  With a budget configured: when \<open>preferFree\<close> is set the result is
  \<open>clampTier t T1\<close>; otherwise, when the daily cap is exceeded (cap set, daily spend
  present and at least the cap) the result is at most T1; otherwise, when the monthly
  cap is exceeded the result is at most T1; otherwise the tier is returned unchanged.
  A missing \<open>currentSpend\<close>, or a missing \<open>dailyUsd\<close> or \<open>monthlyUsd\<close> field, disables
  the corresponding check: the result is the one obtained with that cap removed.
  Without a budget the tier is returned unchanged.
\<close>

theorem applyBudgetConstraints_clamp:
  "(budget rc = None \<longrightarrow> applyBudgetConstraints t rc = t)
   \<and> (budget rc = Some b \<longrightarrow>
        (truthy (preferFree b) \<longrightarrow> applyBudgetConstraints t rc = clampTier t T1)
      \<and> (\<not> truthy (preferFree b) \<and> dailyCapExceeded b \<longrightarrow>
            tierIndex (applyBudgetConstraints t rc) \<le> tierIndex T1)
      \<and> (\<not> truthy (preferFree b) \<and> \<not> dailyCapExceeded b \<and> monthlyCapExceeded b \<longrightarrow>
            tierIndex (applyBudgetConstraints t rc) \<le> tierIndex T1)
      \<and> (\<not> truthy (preferFree b) \<and> \<not> dailyCapExceeded b \<and> \<not> monthlyCapExceeded b \<longrightarrow>
            applyBudgetConstraints t rc = t)
      \<and> (Option.bind (currentSpend b) dailyUsd = None \<longrightarrow>
            \<not> dailyCapExceeded b
            \<and> applyBudgetConstraints t rc
                = applyBudgetConstraints t (rc\<lparr>budget := Some (b\<lparr>dailyCapUsd := None\<rparr>)\<rparr>))
      \<and> (Option.bind (currentSpend b) monthlyUsd = None \<longrightarrow>
            \<not> monthlyCapExceeded b
            \<and> applyBudgetConstraints t rc
                = applyBudgetConstraints t (rc\<lparr>budget := Some (b\<lparr>monthlyCapUsd := None\<rparr>)\<rparr>)))"
proof -
  have clamp: "tierIndex (clampTier t T1) \<le> tierIndex T1"
    by (simp add: clampTier_def)
  show ?thesis
    using clamp
    by (auto simp: applyBudgetConstraints_def dailyCapExceeded_def monthlyCapExceeded_def
          split: option.splits)
qed

theorem applyBudgetConstraints_clamp_witness:
  "applyBudgetConstraints T3 (withBudget budgetPreferFree) = clampTier T3 T1
   \<and> tierIndex (applyBudgetConstraints T3 (withBudget budgetDailyOver)) \<le> tierIndex T1
   \<and> tierIndex (applyBudgetConstraints T3 (withBudget budgetMonthlyOver)) \<le> tierIndex T1
   \<and> applyBudgetConstraints T3 (withBudget budgetDailyUnder) = T3
   \<and> applyBudgetConstraints T3 (withBudget budgetNoSpend) = T3
   \<and> applyBudgetConstraints T3 baseRoutingConfig = T3"
proof -
  have b: "budget (withBudget x) = Some x" for x
    by (simp add: withBudget_def)
  have 1: "truthy (preferFree budgetPreferFree)"
    by (simp add: budgetPreferFree_def truthy_def)
  have 2: "\<not> truthy (preferFree budgetDailyOver) \<and> dailyCapExceeded budgetDailyOver"
    by (simp add: budgetDailyOver_def emptyBudget_def truthy_def dailyCapExceeded_def)
  have 3: "\<not> truthy (preferFree budgetMonthlyOver) \<and> \<not> dailyCapExceeded budgetMonthlyOver
      \<and> monthlyCapExceeded budgetMonthlyOver"
    by (simp add: budgetMonthlyOver_def emptyBudget_def truthy_def dailyCapExceeded_def
          monthlyCapExceeded_def)
  have 4: "\<not> truthy (preferFree budgetDailyUnder) \<and> \<not> dailyCapExceeded budgetDailyUnder
      \<and> \<not> monthlyCapExceeded budgetDailyUnder"
    by (simp add: budgetDailyUnder_def emptyBudget_def truthy_def dailyCapExceeded_def
          monthlyCapExceeded_def)
  have 5: "\<not> truthy (preferFree budgetNoSpend) \<and> \<not> dailyCapExceeded budgetNoSpend
      \<and> \<not> monthlyCapExceeded budgetNoSpend"
    by (simp add: budgetNoSpend_def emptyBudget_def truthy_def dailyCapExceeded_def
          monthlyCapExceeded_def)
  have 6: "budget baseRoutingConfig = None"
    by (simp add: baseRoutingConfig_def)
  show ?thesis
    using applyBudgetConstraints_clamp [of "withBudget budgetPreferFree" T3 budgetPreferFree]
      applyBudgetConstraints_clamp [of "withBudget budgetDailyOver" T3 budgetDailyOver]
      applyBudgetConstraints_clamp [of "withBudget budgetMonthlyOver" T3 budgetMonthlyOver]
      applyBudgetConstraints_clamp [of "withBudget budgetDailyUnder" T3 budgetDailyUnder]
      applyBudgetConstraints_clamp [of "withBudget budgetNoSpend" T3 budgetNoSpend]
      applyBudgetConstraints_clamp [of baseRoutingConfig T3]
      b 1 2 3 4 5 6
    by simp
qed

text \<open>
  C9.  Model resolution chain.  \<open>resolveModelForTier\<close> is a total function to model
  references.  It returns the parsed tier override when the tier has a non-empty
  override string that parses; an override that does not parse (or is empty) gives
  exactly the result of the configuration with that tier's entry removed; without a
  usable override it returns the built-in default of the tier when there is one;
  otherwise the parsed global default (a string, or the \<open>primary\<close> of an object);
  otherwise the hard-coded fallback.
\<close>

theorem resolveModelForTier_chain:
  "(tiers rc t = Some tc \<and> tierModel tc \<noteq> []
      \<and> parseModelRef M (tierModel tc) (DEFAULT_PROVIDER M) = Some m
      \<longrightarrow> resolveModelForTier M t rc config = m)
   \<and> (tiers rc t = Some tc
      \<and> (tierModel tc = [] \<or> parseModelRef M (tierModel tc) (DEFAULT_PROVIDER M) = None)
      \<longrightarrow> resolveModelForTier M t rc config
          = resolveModelForTier M t (rc\<lparr>tiers := (tiers rc)(t := None)\<rparr>) config)
   \<and> (tiers rc t = None \<and> getDefaultTierModel t = Some m
      \<longrightarrow> resolveModelForTier M t rc config = m)
   \<and> (tiers rc t = None \<and> getDefaultTierModel t = None
      \<and> agentsDefaultsModel config = Some (ModelString g)
      \<and> parseModelRef M g (DEFAULT_PROVIDER M) = Some m
      \<longrightarrow> resolveModelForTier M t rc config = m)
   \<and> (tiers rc t = None \<and> getDefaultTierModel t = None
      \<and> agentsDefaultsModel config = Some (ModelObject (Some g)) \<and> g \<noteq> []
      \<and> parseModelRef M g (DEFAULT_PROVIDER M) = Some m
      \<longrightarrow> resolveModelForTier M t rc config = m)
   \<and> (tiers rc t = None \<and> getDefaultTierModel t = None
      \<and> (agentsDefaultsModel config = None \<or> agentsDefaultsModel config = Some (ModelObject None)
          \<or> agentsDefaultsModel config = Some (ModelObject (Some []))
          \<or> (agentsDefaultsModel config = Some (ModelString g) \<or> agentsDefaultsModel config = Some (ModelObject (Some g)))
             \<and> parseModelRef M g (DEFAULT_PROVIDER M) = None)
      \<longrightarrow> resolveModelForTier M t rc config
          = \<lparr>ModelRef.provider = DEFAULT_PROVIDER M, ModelRef.model = js ''claude-sonnet-4-5''\<rparr>)"
proof (intro conjI impI)
  assume "tiers rc t = Some tc \<and> tierModel tc \<noteq> []
      \<and> parseModelRef M (tierModel tc) (DEFAULT_PROVIDER M) = Some m"
  then show "resolveModelForTier M t rc config = m"
    by (simp add: resolveModelForTier_def tierOverride_def)
next
  assume "tiers rc t = Some tc
      \<and> (tierModel tc = [] \<or> parseModelRef M (tierModel tc) (DEFAULT_PROVIDER M) = None)"
  then have "Option.bind (tierOverride rc t) (\<lambda>s. parseModelRef M s (DEFAULT_PROVIDER M)) = None"
    by (auto simp: tierOverride_def)
  moreover have "tierOverride (rc\<lparr>tiers := (tiers rc)(t := None)\<rparr>) t = None"
    by (simp add: tierOverride_def)
  ultimately show "resolveModelForTier M t rc config
      = resolveModelForTier M t (rc\<lparr>tiers := (tiers rc)(t := None)\<rparr>) config"
    by (simp add: resolveModelForTier_def)
next
  assume "tiers rc t = None \<and> getDefaultTierModel t = Some m"
  then show "resolveModelForTier M t rc config = m"
    by (simp add: resolveModelForTier_def tierOverride_def)
next
  assume "tiers rc t = None \<and> getDefaultTierModel t = None
      \<and> agentsDefaultsModel config = Some (ModelString g)
      \<and> parseModelRef M g (DEFAULT_PROVIDER M) = Some m"
  then show "resolveModelForTier M t rc config = m"
    by (simp add: resolveModelForTier_def tierOverride_def)
next
  assume "tiers rc t = None \<and> getDefaultTierModel t = None
      \<and> agentsDefaultsModel config = Some (ModelObject (Some g)) \<and> g \<noteq> []
      \<and> parseModelRef M g (DEFAULT_PROVIDER M) = Some m"
  then show "resolveModelForTier M t rc config = m"
    by (simp add: resolveModelForTier_def tierOverride_def)
next
  assume a: "tiers rc t = None \<and> getDefaultTierModel t = None
      \<and> (agentsDefaultsModel config = None \<or> agentsDefaultsModel config = Some (ModelObject None)
          \<or> agentsDefaultsModel config = Some (ModelObject (Some []))
          \<or> (agentsDefaultsModel config = Some (ModelString g) \<or> agentsDefaultsModel config = Some (ModelObject (Some g)))
             \<and> parseModelRef M g (DEFAULT_PROVIDER M) = None)"
  then have "(case agentsDefaultsModel config of
              Some (ModelString globalPrimary) \<Rightarrow> parseModelRef M globalPrimary (DEFAULT_PROVIDER M)
            | Some (ModelObject (Some primary)) \<Rightarrow>
                if primary \<noteq> [] then parseModelRef M primary (DEFAULT_PROVIDER M) else None
            | _ \<Rightarrow> None) = None"
    by (elim conjE disjE) simp_all
  with a show "resolveModelForTier M t rc config
      = \<lparr>ModelRef.provider = DEFAULT_PROVIDER M, ModelRef.model = js ''claude-sonnet-4-5''\<rparr>"
    by (simp add: resolveModelForTier_def tierOverride_def)
qed


lemma parse_ollama:
  "specParseModelRef (js ''ollama/qwen2.5:7b'') (js ''anthropic'')
     = Some \<lparr>ModelRef.provider = js ''ollama'', ModelRef.model = js ''qwen2.5:7b''\<rparr>"
  by (simp add: specParseModelRef_def trim_def trimStart_def isWhiteSpace_def js_def)

lemma parse_sonnet:
  "specParseModelRef (js ''anthropic/claude-sonnet-4-5'') (js ''anthropic'')
     = Some \<lparr>ModelRef.provider = js ''anthropic'', ModelRef.model = js ''claude-sonnet-4-5''\<rparr>"
  by (simp add: specParseModelRef_def trim_def trimStart_def isWhiteSpace_def js_def)

lemma parse_bad:
  "specParseModelRef (js ''/'') (js ''anthropic'') = None"
  by (simp add: specParseModelRef_def trim_def trimStart_def isWhiteSpace_def js_def)

theorem resolveModelForTier_chain_witness:
  "resolveModelForTier fixtureSelection T1 baseRoutingConfig baseCfg
     = \<lparr>ModelRef.provider = js ''ollama'', ModelRef.model = js ''qwen2.5:7b''\<rparr>
   \<and> resolveModelForTier fixtureSelection T3 malformedRoutingConfig baseCfg
     = resolveModelForTier fixtureSelection T3 noTiersRoutingConfig baseCfg
   \<and> resolveModelForTier fixtureSelection T3 noTiersRoutingConfig baseCfg
     = \<lparr>ModelRef.provider = js ''anthropic'', ModelRef.model = js ''claude-sonnet-4-5''\<rparr>
   \<and> resolveModelForTier fixtureSelection T0 baseRoutingConfig baseCfg
     = \<lparr>ModelRef.provider = js ''anthropic'', ModelRef.model = js ''claude-sonnet-4-5''\<rparr>
   \<and> resolveModelForTier fixtureSelection T0 baseRoutingConfig emptyCfg
     = \<lparr>ModelRef.provider = js ''anthropic'', ModelRef.model = js ''claude-sonnet-4-5''\<rparr>"
proof -
  let ?M = fixtureSelection
  have M: "parseModelRef ?M = specParseModelRef" "DEFAULT_PROVIDER ?M = js ''anthropic''"
    by (simp_all add: fixtureSelection_def)
  have a: "tiers baseRoutingConfig T1 = Some \<lparr>tierModel = js ''ollama/qwen2.5:7b'', maxTokens = None\<rparr>"
    by (simp add: baseRoutingConfig_def)
  have ne: "js ''ollama/qwen2.5:7b'' \<noteq> []" "js ''anthropic/claude-sonnet-4-5'' \<noteq> []"
    by (simp_all add: js_def)
  have 1: "resolveModelForTier ?M T1 baseRoutingConfig baseCfg
     = \<lparr>ModelRef.provider = js ''ollama'', ModelRef.model = js ''qwen2.5:7b''\<rparr>"
    using resolveModelForTier_chain [where rc = baseRoutingConfig and t = T1
        and tc = "\<lparr>tierModel = js ''ollama/qwen2.5:7b'', maxTokens = None\<rparr>" and M = ?M
        and m = "\<lparr>ModelRef.provider = js ''ollama'', ModelRef.model = js ''qwen2.5:7b''\<rparr>" and config = baseCfg]
      a ne M parse_ollama by simp
  have b: "tiers malformedRoutingConfig T3 = Some \<lparr>tierModel = js ''/'', maxTokens = None\<rparr>"
    by (simp add: malformedRoutingConfig_def)
  have b': "malformedRoutingConfig\<lparr>tiers := (tiers malformedRoutingConfig)(T3 := None)\<rparr>
      = noTiersRoutingConfig"
    by (simp add: malformedRoutingConfig_def noTiersRoutingConfig_def)
  have 2: "resolveModelForTier ?M T3 malformedRoutingConfig baseCfg
     = resolveModelForTier ?M T3 noTiersRoutingConfig baseCfg"
    using resolveModelForTier_chain [where rc = malformedRoutingConfig and t = T3
        and tc = "\<lparr>tierModel = js ''/'', maxTokens = None\<rparr>" and M = ?M and config = baseCfg]
      b b' M parse_bad by simp
  have c: "tiers noTiersRoutingConfig T3 = None"
    "getDefaultTierModel T3 = Some \<lparr>ModelRef.provider = js ''anthropic'', ModelRef.model = js ''claude-sonnet-4-5''\<rparr>"
    by (simp_all add: noTiersRoutingConfig_def getDefaultTierModel_def)
  have 3: "resolveModelForTier ?M T3 noTiersRoutingConfig baseCfg
     = \<lparr>ModelRef.provider = js ''anthropic'', ModelRef.model = js ''claude-sonnet-4-5''\<rparr>"
    using resolveModelForTier_chain [where rc = noTiersRoutingConfig and t = T3 and M = ?M
        and m = "\<lparr>ModelRef.provider = js ''anthropic'', ModelRef.model = js ''claude-sonnet-4-5''\<rparr>" and config = baseCfg]
      c by simp
  have d: "tiers baseRoutingConfig T0 = None" "getDefaultTierModel T0 = None"
    "agentsDefaultsModel baseCfg = Some (ModelObject (Some (js ''anthropic/claude-sonnet-4-5'')))"
    by (simp_all add: baseRoutingConfig_def getDefaultTierModel_def baseCfg_def)
  have 4: "resolveModelForTier ?M T0 baseRoutingConfig baseCfg
     = \<lparr>ModelRef.provider = js ''anthropic'', ModelRef.model = js ''claude-sonnet-4-5''\<rparr>"
    using resolveModelForTier_chain [where rc = baseRoutingConfig and t = T0 and M = ?M
        and m = "\<lparr>ModelRef.provider = js ''anthropic'', ModelRef.model = js ''claude-sonnet-4-5''\<rparr>" and config = baseCfg
        and g = "js ''anthropic/claude-sonnet-4-5''"]
      d ne M parse_sonnet by simp
  have e: "agentsDefaultsModel emptyCfg = None"
    by (simp add: emptyCfg_def)
  have 5: "resolveModelForTier ?M T0 baseRoutingConfig emptyCfg
     = \<lparr>ModelRef.provider = js ''anthropic'', ModelRef.model = js ''claude-sonnet-4-5''\<rparr>"
    using resolveModelForTier_chain [where rc = baseRoutingConfig and t = T0 and M = ?M and config = emptyCfg]
      d(1,2) e M by simp
  show ?thesis using 1 2 3 4 5 by simp
qed

section \<open>Properties of the prompt adapter's result and of the router\<close>

text \<open>
  C5.  For every Unicode table, prompt and tier, the adapted prompt's \<open>systemPrompt\<close> is
  null if and only if the tier is T0.
\<close>

theorem adaptPromptForTier_null_iff_T0:
  "(systemPrompt (adaptPromptForTier U prompt t) = None) = (t = T0)"
  by (cases t) (simp_all add: adaptPromptForTier_def adaptForT1_def adaptForT2_def adaptForT4_def Let_def)

lemma applyBias_defined: "\<exists>r. applyBias t b = Some r"
  by (cases t; cases b; simp add: applyBias_def tierIndex_simps arrayAt_TIER_ORDER)

lemmas engine_eval =
  test_def seqs_def liti_def lit_def chi_def ch_def plus_def opt_def ws_def dot_def wordc_def
  oneOf_def nl_def isWhiteSpace_def isLineTerminator_def asciiUpper_def wordBefore_def wordAfter_def
  isWordChar_def isDigit_def isLead_def isTrail_def progress_def REs_def src_def js_def Let_def

lemmas classify_eval =
  classifyIntent_def classifyComplex_def complexStage_def mkResult_def push_def wordCountOf_def
  trim_def trimStart_def EXPLICIT_MODEL_PATTERNS_def TRIVIAL_PATTERNS_def FLAGSHIP_PATTERNS_def
  COMPLEX_PATTERNS_def SIMPLE_PATTERNS_def WHITESPACE_RUN_def CODE_FENCE_def QUESTION_MARK_def
  NUMBERED_LIST_def trivialWords_def reactionEmoji_def fixtureUnicode_def splitRe_def matchCount_def

text \<open>
  C4.  The router always returns a decision.  A bypassed decision has the tier equal to
  the original tier and a non-empty bypass reason; a decision that is not bypassed has
  no bypass reason.
\<close>

theorem routeMessage_bypass_invariant:
  "\<exists>d sink. routeMessage U M now params = Some (d, sink)
     \<and> (bypassed d \<longrightarrow> tier d = originalTier d \<and> (\<exists>r. bypassReason d = Some r \<and> r \<noteq> []))
     \<and> (\<not> bypassed d \<longrightarrow> bypassReason d = None)"
proof (cases "sessionModelOverride params")
  case (Some override)
  then show ?thesis
    by (simp add: routeMessage_def Let_def js_def)
next
  case None
  show ?thesis
  proof (cases "ClassificationResult.intent (classifyIntent U (message params)) = Explicit")
    case True
    with None show ?thesis
      by (simp add: routeMessage_def Let_def js_def)
  next
    case False
    obtain r where "applyBias (resolveMinTierForIntent
        (ClassificationResult.intent (classifyIntent U (message params))))
        (case bias (routingConfig params) of None \<Rightarrow> Balanced | Some b \<Rightarrow> b) = Some r"
      using applyBias_defined by blast
    with None False show ?thesis
      by (simp add: routeMessage_def Let_def)
  qed
qed

lemma classify_hi:
  "ClassificationResult.intent (classifyIntent fixtureUnicode (js ''hi'')) = Trivial"
  by (simp add: engine_eval classify_eval)

theorem routeMessage_bypass_invariant_witness:
  "(\<exists>d sink. routeMessage fixtureUnicode fixtureSelection [] paramsOverride = Some (d, sink)
      \<and> bypassed d \<and> tier d = originalTier d \<and> (\<exists>r. bypassReason d = Some r \<and> r \<noteq> []))
   \<and> (\<exists>d sink. routeMessage fixtureUnicode fixtureSelection [] paramsHi = Some (d, sink)
      \<and> \<not> bypassed d \<and> tier d = T0 \<and> bypassReason d = None)"
proof
  obtain d sink where d: "routeMessage fixtureUnicode fixtureSelection [] paramsOverride = Some (d, sink)"
    and inv: "bypassed d \<longrightarrow> tier d = originalTier d \<and> (\<exists>r. bypassReason d = Some r \<and> r \<noteq> [])"
    using routeMessage_bypass_invariant [of fixtureUnicode fixtureSelection "[]" paramsOverride]
    by blast
  have "bypassed d"
    using d by (auto simp: routeMessage_def paramsOverride_def paramsHi_def Let_def)
  with d inv
  show "\<exists>d sink. routeMessage fixtureUnicode fixtureSelection [] paramsOverride = Some (d, sink)
      \<and> bypassed d \<and> tier d = originalTier d \<and> (\<exists>r. bypassReason d = Some r \<and> r \<noteq> [])"
    by blast
next
  obtain d sink where d: "routeMessage fixtureUnicode fixtureSelection [] paramsHi = Some (d, sink)"
    and inv: "\<not> bypassed d \<longrightarrow> bypassReason d = None"
    using routeMessage_bypass_invariant [of fixtureUnicode fixtureSelection "[]" paramsHi]
    by blast
  have "\<not> bypassed d \<and> tier d = T0"
    using d classify_hi
    by (auto simp: routeMessage_def paramsHi_def Let_def resolveMinTierForIntent_def
          applyBias_def baseRoutingConfig_def applyBudgetConstraints_def)
  with d inv
  show "\<exists>d sink. routeMessage fixtureUnicode fixtureSelection [] paramsHi = Some (d, sink)
      \<and> \<not> bypassed d \<and> tier d = T0 \<and> bypassReason d = None"
    by blast
qed

text \<open>
  C6.  The classifier is a total function: the model has a result for every input
  string.  The confidence of the result lies in the closed interval from 0 to 1 (the
  scores are real numbers here), and the reason is not the empty string.
\<close>

theorem classifyIntent_confidence_reason:
  "0 \<le> confidence (classifyIntent U s) \<and> confidence (classifyIntent U s) \<le> 1
   \<and> reason (classifyIntent U s) \<noteq> []"
proof -
  have complex: "0 \<le> confidence (classifyComplex t sigs) \<and> confidence (classifyComplex t sigs) \<le> 1
      \<and> reason (classifyComplex t sigs) \<noteq> []" for t sigs
    by (cases "complexStage t sigs")
       (auto simp: classifyComplex_def mkResult_def defaultReason_def js_def min_def)
  show ?thesis
    using complex
    by (cases "scorePatterns (js ''flagship:'') 0.4 FLAGSHIP_PATTERNS (trim s) ([], 0)")
       (auto simp: classifyIntent_def mkResult_def js_def Let_def min_def)
qed

section \<open>Properties of the classifier\<close>

subsection \<open>Facts about trimming\<close>

lemma trimEnd_subset: "set (trimEnd s) \<subseteq> set s"
  by (induction s) (auto split: list.splits)

lemma trimEnd_Nil_iff: "(trimEnd s = []) = list_all isWhiteSpace s"
  by (induction s) (auto split: list.splits)

lemma trim_subset: "set (trim s) \<subseteq> set s"
  using trimEnd_subset [of "trimStart s"] set_dropWhileD [of _ isWhiteSpace s]
  by (auto simp: trim_def trimStart_def)

lemma dropWhile_keeps: "x \<in> set s \<Longrightarrow> \<not> P x \<Longrightarrow> x \<in> set (dropWhile P s)"
  by (induction s) auto

lemma trim_Nil_iff: "(trim s = []) = list_all isWhiteSpace s"
proof -
  have "list_all isWhiteSpace (dropWhile isWhiteSpace s) = list_all isWhiteSpace s"
    by (induction s) auto
  then show ?thesis
    by (simp add: trim_def trimStart_def trimEnd_Nil_iff)
qed

lemma digit_not_space: "isDigit c \<Longrightarrow> \<not> isWhiteSpace c"
  by (auto simp: isDigit_def isWhiteSpace_def)

subsection \<open>Facts about the matcher\<close>

lemma set_ends_Seq: "set (ends (Seq a b) p) = (\<Union>q \<in> set (ends a p). set (ends b q))"
  by simp

lemma searchFrom_plain:
  "\<not> unicode re \<Longrightarrow>
   searchFrom re prev (c # cs) = (ends (body re) (prev, c # cs) \<noteq> [] \<or> searchFrom re (Some c) cs)"
  by (cases cs) simp_all

lemma searchFrom_never:
  assumes "\<not> unicode re"
    and "\<And>prev t. list_all D t \<Longrightarrow> ends (body re) (prev, t) = []"
    and "list_all D s"
  shows "\<not> searchFrom re prev s"
  using assms(3)
proof (induction s arbitrary: prev)
  case Nil
  then show ?case using assms(2) [of "[]"] by simp
next
  case (Cons c cs)
  then show ?case
    using assms(1) assms(2) [of "c # cs" prev] by (simp add: searchFrom_plain)
qed

text \<open>A pattern that starts, after an anchor or a word boundary, with a literal.\<close>

lemma ends_anchor_literal:
  assumes "set (ends a (prev, t)) \<subseteq> {(prev, t)}"
    and "\<And>c cs. t = c # cs \<Longrightarrow> \<not> P c"
  shows "ends (Seq a (Seq (Seq (Chr P) x) y)) (prev, t) = []"
proof -
  have E: "ends (Chr P) (prev, t) = []"
    using assms(2) by (cases t) auto
  have "ends (Seq (Seq (Chr P) x) y) (prev, t)
      = concat (map (ends y) (concat (map (ends x) (ends (Chr P) (prev, t)))))"
    by (simp only: ends.simps)
  also have "\<dots> = []"
    by (simp only: E list.map concat.simps)
  finally have Z: "ends (Seq (Seq (Chr P) x) y) (prev, t) = []" .
  have "\<forall>q \<in> set (ends a (prev, t)). ends (Seq (Seq (Chr P) x) y) q = []"
    using assms(1) Z by blast
  then have "concat (map (ends (Seq (Seq (Chr P) x) y)) (ends a (prev, t))) = []"
    by (simp only: concat_eq_Nil_conv set_map) blast
  then show ?thesis
    by (simp only: ends.simps)
qed

lemma ends_Bol_subset: "set (ends Bol p) \<subseteq> {p}"
  by auto

lemma ends_WordB_subset: "set (ends WordB p) \<subseteq> {p}"
  by auto


lemma digitOrSpace_not_letter:
  "digitOrSpace c \<Longrightarrow> asciiUpper c \<noteq> asciiUpper (of_char CHR ''/'')"
  "digitOrSpace c \<Longrightarrow> asciiUpper c \<noteq> asciiUpper (of_char CHR ''u'')"
  "digitOrSpace c \<Longrightarrow> asciiUpper c \<noteq> asciiUpper (of_char CHR ''s'')"
  by (auto simp: digitOrSpace_def isDigit_def isWhiteSpace_def asciiUpper_def)

lemma explicit_never:
  assumes "list_all digitOrSpace t"
  shows "\<not> list_ex (\<lambda>p. test p t) EXPLICIT_MODEL_PATTERNS"
proof -
  have 1: "ends (body (EXPLICIT_MODEL_PATTERNS ! 0)) (prev, t) = []" if "list_all digitOrSpace t" for prev t
    using that digitOrSpace_not_letter(1)
    by (auto simp: EXPLICIT_MODEL_PATTERNS_def REs_def seqs_def liti_def chi_def
          intro!: ends_anchor_literal ends_Bol_subset)
  have 2: "ends (body (EXPLICIT_MODEL_PATTERNS ! 1)) (prev, t) = []" if "list_all digitOrSpace t" for prev t
    using that digitOrSpace_not_letter(2)
    by (auto simp: EXPLICIT_MODEL_PATTERNS_def REs_def seqs_def liti_def chi_def
          intro!: ends_anchor_literal ends_WordB_subset)
  have 3: "ends (body (EXPLICIT_MODEL_PATTERNS ! 2)) (prev, t) = []" if "list_all digitOrSpace t" for prev t
    using that digitOrSpace_not_letter(3)
    by (auto simp: EXPLICIT_MODEL_PATTERNS_def REs_def seqs_def liti_def chi_def
          intro!: ends_anchor_literal ends_WordB_subset)
  have u: "\<not> unicode (EXPLICIT_MODEL_PATTERNS ! 0)" "\<not> unicode (EXPLICIT_MODEL_PATTERNS ! 1)"
    "\<not> unicode (EXPLICIT_MODEL_PATTERNS ! 2)"
    by (simp_all add: EXPLICIT_MODEL_PATTERNS_def REs_def)
  have "\<not> test (EXPLICIT_MODEL_PATTERNS ! 0) t" "\<not> test (EXPLICIT_MODEL_PATTERNS ! 1) t"
    "\<not> test (EXPLICIT_MODEL_PATTERNS ! 2) t"
    unfolding test_def
    using searchFrom_never [OF u(1) 1 assms] searchFrom_never [OF u(2) 2 assms]
      searchFrom_never [OF u(3) 3 assms]
    by blast+
  moreover have "p = EXPLICIT_MODEL_PATTERNS ! 0 \<or> p = EXPLICIT_MODEL_PATTERNS ! 1
      \<or> p = EXPLICIT_MODEL_PATTERNS ! 2" if "p \<in> set EXPLICIT_MODEL_PATTERNS" for p
    using that by (simp add: EXPLICIT_MODEL_PATTERNS_def)
  ultimately show ?thesis
    unfolding list_ex_iff by blast
qed


lemma codePointAt_plain: "\<not> isLead c \<Longrightarrow> codePointAt (c # cs) = Some (c, c, cs)"
  by (cases cs) simp_all

lemma ends_UChr_plain:
  "P c \<Longrightarrow> \<not> isLead c \<Longrightarrow> ends (UChr P) (prev, c # cs) = [(Some c, cs)]"
  by (simp add: codePointAt_plain)

lemma greedy_reaches_end:
  assumes "list_all (\<lambda>c. P c \<and> \<not> isLead c) t" and "length t \<le> n"
  shows "\<exists>x. (x, []) \<in> set (greedy n (ends (UChr P)) (prev, t))"
  using assms
proof (induction t arbitrary: n prev)
  case Nil
  then show ?case by (cases n) auto
next
  case (Cons c cs)
  then obtain m where n: "n = Suc m" and m: "length cs \<le> m"
    by (cases n) auto
  from Cons.prems have c: "P c" "\<not> isLead c" and cs: "list_all (\<lambda>c. P c \<and> \<not> isLead c) cs"
    by auto
  obtain x where "(x, []) \<in> set (greedy m (ends (UChr P)) (Some c, cs))"
    using Cons.IH [OF cs m] by blast
  then show ?case
    unfolding n
    using ends_UChr_plain [of P c "prev" cs, OF c]
    by (auto simp: progress_def simp del: ends.simps)
qed

lemma searchFrom_first: "ends (body re) (prev, s) \<noteq> [] \<Longrightarrow> searchFrom re prev s"
  by (cases "(re, prev, s)" rule: searchFrom.cases) auto

lemma space_not_lead: "digitOrSpace c \<Longrightarrow> \<not> isLead c"
  by (auto simp: digitOrSpace_def isDigit_def isWhiteSpace_def isLead_def)

lemma emoji_pattern_matches:
  assumes emoji: "\<forall>c. isDigit c \<longrightarrow> Emoji U c"
    and t: "list_all digitOrSpace t" "t \<noteq> []"
  shows "test (TRIVIAL_PATTERNS U ! 1) t"
proof -
  let ?P = "\<lambda>c. Emoji U c \<or> isWhiteSpace c"
  obtain c cs where tc: "t = c # cs"
    using t(2) by (cases t) auto
  have all: "list_all (\<lambda>c. ?P c \<and> \<not> isLead c) t"
    using t(1) emoji space_not_lead by (auto simp: list_all_iff digitOrSpace_def)
  then have c: "?P c" "\<not> isLead c" and cs: "list_all (\<lambda>c. ?P c \<and> \<not> isLead c) cs"
    by (auto simp: tc)
  obtain x where x: "(x, []) \<in> set (greedy (length cs) (ends (UChr ?P)) (Some c, cs))"
    using greedy_reaches_end [OF cs order_refl] by blast
  have "(x, []) \<in> set (ends (body (TRIVIAL_PATTERNS U ! 1)) (None, t))"
    using x ends_UChr_plain [of ?P c None cs, OF c]
    by (simp add: TRIVIAL_PATTERNS_def seqs_def plus_def tc del: ends.simps(2))
  then have "ends (body (TRIVIAL_PATTERNS U ! 1)) (None, t) \<noteq> []"
    by auto
  then show ?thesis
    unfolding test_def by (rule searchFrom_first)
qed

text \<open>
  C10 (amended).  Let the digits carry the \<open>Emoji\<close> property in the engine's Unicode
  table.  For every message that consists only of ASCII digits and white space and
  contains at least one digit, \<open>classifyIntent\<close> returns the intent trivial with
  confidence 0.95, the reason \<open>trivial pattern match\<close> and the single signal
  \<open>trivial_pattern\<close>: no explicit pattern matches, and the emoji-only pattern does.
  For every message of white space only, empty or not, and for every Unicode table, the
  message is trimmed to the empty string and \<open>classifyIntent\<close> returns the intent
  trivial with confidence 1, the reason \<open>empty message\<close> and no signal.
\<close>

theorem classifyIntent_digits:
  "((\<forall>c. isDigit c \<longrightarrow> Emoji U c)
      \<and> list_all (\<lambda>c. isDigit c \<or> isWhiteSpace c) s \<and> list_ex isDigit s
    \<longrightarrow> classifyIntent U s =
          \<lparr>intent = Trivial, confidence = 0.95, reason = js ''trivial pattern match'',
           signals = [\<lparr>name = js ''trivial_pattern'', weight = 1, matched = True\<rparr>]\<rparr>)
   \<and> (list_all isWhiteSpace s
    \<longrightarrow> trim s = []
        \<and> classifyIntent U s =
          \<lparr>intent = Trivial, confidence = 1, reason = js ''empty message'', signals = []\<rparr>)"
proof (intro conjI impI)
  assume a: "(\<forall>c. isDigit c \<longrightarrow> Emoji U c)
      \<and> list_all (\<lambda>c. isDigit c \<or> isWhiteSpace c) s \<and> list_ex isDigit s"
  let ?t = "trim s"
  have em: "\<forall>c. isDigit c \<longrightarrow> Emoji U c"
    using a by simp
  have all: "list_all digitOrSpace ?t"
    using a trim_subset [of s] by (auto simp: list_all_iff digitOrSpace_def)
  have "\<not> list_all isWhiteSpace s"
    using a digit_not_space by (auto simp: list_all_iff list_ex_iff)
  then have ne: "?t \<noteq> []"
    by (simp add: trim_Nil_iff)
  have "TRIVIAL_PATTERNS U ! 1 \<in> set (TRIVIAL_PATTERNS U)"
    by (simp add: TRIVIAL_PATTERNS_def)
  then have triv: "list_ex (\<lambda>p. test p ?t) (TRIVIAL_PATTERNS U)"
    using emoji_pattern_matches [OF em all ne] unfolding list_ex_iff by blast
  show "classifyIntent U s =
          \<lparr>intent = Trivial, confidence = 0.95, reason = js ''trivial pattern match'',
           signals = [\<lparr>name = js ''trivial_pattern'', weight = 1, matched = True\<rparr>]\<rparr>"
    using ne explicit_never [OF all] triv
    by (simp add: classifyIntent_def mkResult_def Let_def)
next
  assume "list_all isWhiteSpace s"
  then show "trim s = []"
    by (simp add: trim_Nil_iff)
next
  assume "list_all isWhiteSpace s"
  then have "trim s = []"
    by (simp add: trim_Nil_iff)
  then show "classifyIntent U s =
          \<lparr>intent = Trivial, confidence = 1, reason = js ''empty message'', signals = []\<rparr>"
    by (simp add: classifyIntent_def mkResult_def Let_def)
qed

text \<open>The message \<open>12 3\<close> under the ASCII-exact table, and a message of a space, a tab and
  a newline.\<close>

theorem classifyIntent_digits_witness:
  "classifyIntent fixtureUnicode (js ''12 3'') =
     \<lparr>intent = Trivial, confidence = 0.95, reason = js ''trivial pattern match'',
      signals = [\<lparr>name = js ''trivial_pattern'', weight = 1, matched = True\<rparr>]\<rparr>
   \<and> trim [32, 9, 10] = []
   \<and> classifyIntent fixtureUnicode [32, 9, 10] =
     \<lparr>intent = Trivial, confidence = 1, reason = js ''empty message'', signals = []\<rparr>"
proof -
  have 1: "\<forall>c. isDigit c \<longrightarrow> Emoji fixtureUnicode c"
    by (simp add: fixtureUnicode_def)
  have 2: "list_all (\<lambda>c. isDigit c \<or> isWhiteSpace c) (js ''12 3'')"
    by (simp add: js_def isDigit_def isWhiteSpace_def)
  have 3: "list_ex isDigit (js ''12 3'')"
    by (simp add: js_def isDigit_def)
  have 4: "list_all isWhiteSpace [32, 9, 10]"
    by (simp add: isWhiteSpace_def)
  show ?thesis
    using classifyIntent_digits [of fixtureUnicode "js ''12 3''"]
      classifyIntent_digits [of fixtureUnicode "[32, 9, 10]"] 1 2 3 4
    by blast
qed

text \<open>
  The claim as stated also covers a non-empty message of white space only.  Such a
  message is trimmed to the empty string and classified by the first check, with
  confidence 1 and the reason \<open>empty message\<close>.
\<close>

theorem classifyIntent_digits_counterexample:
  "js '' '' \<noteq> [] \<and> list_all (\<lambda>c. isDigit c \<or> isWhiteSpace c) (js '' '')
   \<and> list_all (Emoji fixtureUnicode) [48, 49, 50, 51, 52, 53, 54, 55, 56, 57]
   \<and> confidence (classifyIntent fixtureUnicode (js '' '')) = 1
   \<and> confidence (classifyIntent fixtureUnicode (js '' '')) \<noteq> 0.95
   \<and> reason (classifyIntent fixtureUnicode (js '' '')) = js ''empty message''
   \<and> reason (classifyIntent fixtureUnicode (js '' '')) \<noteq> js ''trivial pattern match''"
  by (simp add: classifyIntent_def mkResult_def trim_def trimStart_def js_def isWhiteSpace_def
        isDigit_def fixtureUnicode_def)

subsection \<open>The signal trace\<close>

lemma scorePatterns_eq:
  "scorePatterns pre w ps t (sigs, sc) =
     (sigs @ map (\<lambda>p. \<lparr>name = pre @ take 30 (source p), weight = w, matched = test p t\<rparr>) ps,
      snd (scorePatterns pre w ps t ([], sc)))"
proof (induction ps arbitrary: sigs sc)
  case Nil
  then show ?case by simp
next
  case (Cons p ps)
  show ?case
    using Cons.IH [of "sigs @ [\<lparr>name = pre @ take 30 (source p), weight = w, matched = True\<rparr>]" "sc + w"]
      Cons.IH [of "sigs @ [\<lparr>name = pre @ take 30 (source p), weight = w, matched = False\<rparr>]" sc]
      Cons.IH [of "[\<lparr>name = pre @ take 30 (source p), weight = w, matched = True\<rparr>]" "sc + w"]
      Cons.IH [of "[\<lparr>name = pre @ take 30 (source p), weight = w, matched = False\<rparr>]" sc]
    by simp
qed

lemma signals_scored:
  "map signalOf (filter recorded (scored st pre w ps t))
     = map (\<lambda>p. \<lparr>name = pre @ take 30 (source p), weight = w, matched = test p t\<rparr>) ps"
  by (induction ps) (simp_all add: scored_def recorded_def signalOf_def)

lemma signals_firstMatch:
  "map signalOf (filter recorded (firstMatch st n w ps t))
     = (if list_ex (\<lambda>p. test p t) ps then [\<lparr>name = js n, weight = w, matched = True\<rparr>] else [])"
  by (induction ps) (simp_all add: recorded_def signalOf_def)

lemma signals_heuristic:
  "map signalOf (filter recorded [heuristic st n w b])
     = (if b then [\<lparr>name = js n, weight = w, matched = True\<rparr>] else [])"
  by (simp add: recorded_def signalOf_def heuristic_def)

lemma push_eq: "push n w (sigs, sc) = (sigs @ [\<lparr>name = js n, weight = w, matched = True\<rparr>], sc + w)"
  by (simp add: push_def)

lemma complexStage_eq:
  "complexStage t sigs =
     (sigs @ map (\<lambda>p. \<lparr>name = js ''complex:'' @ take 30 (source p), weight = 0.25,
                        matched = test p t\<rparr>) COMPLEX_PATTERNS
           @ heuristicSignals t,
      snd (complexStage t []))"
proof -
  obtain sc where sc: "snd (scorePatterns (js ''complex:'') 0.25 COMPLEX_PATTERNS t ([], 0)) = sc"
    by simp
  have a: "scorePatterns (js ''complex:'') 0.25 COMPLEX_PATTERNS t (sigs, 0)
      = (sigs @ map (\<lambda>p. \<lparr>name = js ''complex:'' @ take 30 (source p), weight = 0.25,
                        matched = test p t\<rparr>) COMPLEX_PATTERNS, sc)" for sigs
    using scorePatterns_eq [of "js ''complex:''" "0.25" COMPLEX_PATTERNS t sigs 0] sc by simp
  show ?thesis
    unfolding complexStage_def a Let_def heuristicSignals_def
    by (simp add: push_eq)
qed


lemma signals_checksComplex:
  "map signalOf (filter recorded (checksComplex t))
     = map (\<lambda>p. \<lparr>name = js ''complex:'' @ take 30 (source p), weight = 0.25,
                   matched = test p t\<rparr>) COMPLEX_PATTERNS
       @ heuristicSignals t
       @ (if snd (complexStage t []) \<ge> 0.5 then []
          else if list_ex (\<lambda>p. test p t) SIMPLE_PATTERNS
          then [\<lparr>name = js ''simple_pattern'', weight = 0.7, matched = True\<rparr>]
          else if wordCountOf t \<le> 15 \<and> snd (complexStage t []) < 0.25
          then [\<lparr>name = js ''short_no_complexity'', weight = 0.6, matched = True\<rparr>]
          else [])"
  unfolding checksComplex_def filter_append map_append signals_scored signals_firstMatch
    heuristicSignals_def
  by (simp add: recorded_def signalOf_def heuristic_def signals_firstMatch)

lemma signals_classifyComplex:
  "signals (classifyComplex t sigs) = sigs @ map signalOf (filter recorded (checksComplex t))"
  unfolding signals_checksComplex classifyComplex_def
  by (subst complexStage_eq) (simp add: mkResult_def)

lemma signals_trace:
  "signals (classifyIntent U msg) = map signalOf (filter recorded (checksPerformed U msg))"
proof -
  let ?t = "trim msg"
  obtain sc where sc: "snd (scorePatterns (js ''flagship:'') 0.4 FLAGSHIP_PATTERNS ?t ([], 0)) = sc"
    by simp
  have a: "scorePatterns (js ''flagship:'') 0.4 FLAGSHIP_PATTERNS ?t ([], 0)
      = (map (\<lambda>p. \<lparr>name = js ''flagship:'' @ take 30 (source p), weight = 0.4,
                        matched = test p ?t\<rparr>) FLAGSHIP_PATTERNS, sc)"
    using scorePatterns_eq [of "js ''flagship:''" "0.4" FLAGSHIP_PATTERNS ?t "[]" 0] sc by simp
  show ?thesis
    unfolding classifyIntent_def checksPerformed_def Let_def a
    by (simp add: mkResult_def signals_classifyComplex signals_scored signals_firstMatch
          recorded_def signalOf_def heuristic_def sc)
qed


lemma signalStage_simps:
  "signalStage (js ''explicit_model_request'') = 1"
  "signalStage (js ''trivial_pattern'') = 2"
  "signalStage (js ''very_short'') = 2"
  "signalStage (js ''flagship:'' @ x) = 3"
  "signalStage (js ''complex:'' @ x) = 4"
  "signalStage (js ''long_message'') = 4"
  "signalStage (js ''medium_message'') = 4"
  "signalStage (js ''code_block'') = 4"
  "signalStage (js ''multiple_questions'') = 4"
  "signalStage (js ''numbered_list'') = 4"
  "signalStage (js ''simple_pattern'') = 5"
  "signalStage (js ''short_no_complexity'') = 5"
  by (simp_all add: signalStage_def js_def)

lemma decidingStage_simps:
  "decidingStage (mkResult i c (js ''empty message'') sigs) = 0"
  "decidingStage (mkResult i c (js ''explicit model request'') sigs) = 1"
  "decidingStage (mkResult i c (js ''trivial pattern match'') sigs) = 2"
  "decidingStage (mkResult i c (js ''very short non-question'') sigs) = 2"
  "decidingStage (mkResult i c (js ''flagship keyword match'') sigs) = 3"
  "decidingStage (mkResult i c (js ''complex signal accumulation'') sigs) = 4"
  "decidingStage (mkResult i c (js ''simple pattern match'') sigs) = 5"
  "decidingStage (mkResult i c (js ''short message without complexity'') sigs) = 5"
  "decidingStage (mkResult i c defaultReason sigs) = 6"
  by (simp_all add: decidingStage_def mkResult_def defaultReason_def js_def)

lemma signals_mkResult: "signals (mkResult i c r sigs) = sigs"
  by (simp add: mkResult_def)

lemma stage_heuristicSignals: "list_all (\<lambda>sg. signalStage (name sg) = 4) (heuristicSignals t)"
  by (simp add: heuristicSignals_def signalStage_simps)

lemma list_all_mono': "list_all P xs \<Longrightarrow> (\<And>x. P x \<Longrightarrow> Q x) \<Longrightarrow> list_all Q xs"
  by (auto simp: list_all_iff)

lemma stage_classifyComplex:
  assumes "list_all (\<lambda>sg. signalStage (name sg) \<le> 3) sigs"
  shows "list_all (\<lambda>sg. signalStage (name sg) \<le> decidingStage (classifyComplex t sigs))
           (signals (classifyComplex t sigs))"
proof -
  have 4: "4 \<le> decidingStage (classifyComplex t sigs)"
    unfolding classifyComplex_def
    by (subst complexStage_eq) (simp add: decidingStage_simps)
  have a: "list_all (\<lambda>sg. signalStage (name sg) \<le> decidingStage (classifyComplex t sigs)) sigs"
    using assms 4 by (auto simp: list_all_iff)
  have b: "list_all (\<lambda>sg. signalStage (name sg) \<le> decidingStage (classifyComplex t sigs))
      (map (\<lambda>p. \<lparr>name = js ''complex:'' @ take 30 (source p), weight = 0.25,
                   matched = test p t\<rparr>) COMPLEX_PATTERNS)"
    using 4 by (simp add: list_all_iff signalStage_simps)
  have c: "list_all (\<lambda>sg. signalStage (name sg) \<le> decidingStage (classifyComplex t sigs))
      (heuristicSignals t)"
    using stage_heuristicSignals [of t] 4 by (auto simp: list_all_iff)
  have d: "signals (classifyComplex t sigs)
      = sigs @ map (\<lambda>p. \<lparr>name = js ''complex:'' @ take 30 (source p), weight = 0.25,
                   matched = test p t\<rparr>) COMPLEX_PATTERNS
        @ heuristicSignals t
        @ (if decidingStage (classifyComplex t sigs) = 5
           then [last (signals (classifyComplex t sigs))] else [])
      \<and> (decidingStage (classifyComplex t sigs) = 5
           \<longrightarrow> signalStage (name (last (signals (classifyComplex t sigs)))) = 5)"
    unfolding classifyComplex_def
    by (subst (1 2 3 4 5) complexStage_eq)
       (simp add: decidingStage_simps signals_mkResult signalStage_simps)
  show ?thesis
    apply (subst d [THEN conjunct1])
    using a b c d [THEN conjunct2]
    by (auto simp: list_all_iff)
qed

lemma stage_bound:
  "list_all (\<lambda>sg. signalStage (name sg) \<le> decidingStage (classifyIntent U msg))
     (signals (classifyIntent U msg))"
proof -
  let ?t = "trim msg"
  obtain sc where sc: "snd (scorePatterns (js ''flagship:'') 0.4 FLAGSHIP_PATTERNS ?t ([], 0)) = sc"
    by simp
  let ?fs = "map (\<lambda>p. \<lparr>name = js ''flagship:'' @ take 30 (source p), weight = 0.4,
                        matched = test p ?t\<rparr>) FLAGSHIP_PATTERNS"
  have a: "scorePatterns (js ''flagship:'') 0.4 FLAGSHIP_PATTERNS ?t ([], 0) = (?fs, sc)"
    using scorePatterns_eq [of "js ''flagship:''" "0.4" FLAGSHIP_PATTERNS ?t "[]" 0] sc by simp
  have fs: "list_all (\<lambda>sg. signalStage (name sg) \<le> 3) ?fs"
    by (simp add: list_all_iff signalStage_simps)
  show ?thesis
    unfolding classifyIntent_def Let_def a
    using stage_classifyComplex [OF fs, of ?t] fs
    by (simp add: decidingStage_simps signalStage_simps signals_mkResult)
qed

text \<open>
  C7 (amended).  For every message, the signals of the result are, in the order of
  evaluation, the signals of the checks performed that are tests of a flagship or
  complex pattern (matched or not) or that succeeded, the empty-message test excepted;
  so an unmatched explicit, trivial, very-short, length, code-block, question, list,
  simple or short-message check leaves no entry.  No signal belongs to a stage after
  the one that decided the classification.
\<close>

theorem classifyIntent_signal_trace:
  "signals (classifyIntent U msg) = map signalOf (filter recorded (checksPerformed U msg))
   \<and> list_all (\<lambda>sg. signalStage (name sg) \<le> decidingStage (classifyIntent U msg))
         (signals (classifyIntent U msg))"
  using signals_trace stage_bound by blast

theorem classifyIntent_signal_trace_witness:
  "signals (classifyIntent fixtureUnicode (js ''cool''))
     = map signalOf (filter recorded (checksPerformed fixtureUnicode (js ''cool'')))
   \<and> list_all (\<lambda>sg. signalStage (name sg) \<le> decidingStage (classifyIntent fixtureUnicode (js ''cool'')))
         (signals (classifyIntent fixtureUnicode (js ''cool'')))"
  by (rule classifyIntent_signal_trace)

text \<open>
  The claim as stated asks for an entry for every check performed, matched or not.
  For the message \<open>cool\<close> the classifier performs nine checks (the empty-message test,
  three explicit patterns, four trivial patterns, the very-short test) and records one
  signal.
\<close>

theorem classifyIntent_signal_trace_counterexample:
  "map (\<lambda>c. (stageNo c, outcome c)) (checksPerformed fixtureUnicode (js ''cool''))
     = [(0, False), (1, False), (1, False), (1, False), (2, False), (2, False), (2, False),
        (2, False), (2, True)]
   \<and> signals (classifyIntent fixtureUnicode (js ''cool''))
     = [\<lparr>name = js ''very_short'', weight = 0.8, matched = True\<rparr>]
   \<and> length (signals (classifyIntent fixtureUnicode (js ''cool'')))
     \<noteq> length (checksPerformed fixtureUnicode (js ''cool''))"
  by (simp add: engine_eval classify_eval checksPerformed_def heuristic_def)

section \<open>Properties of the prompt adapter\<close>

subsection \<open>Substrings\<close>

lemma startsWith_append: "startsWith s p \<Longrightarrow> startsWith (s @ t) p"
  by (induction s p rule: startsWith.induct) auto

lemma jsIncludes_appendI1: "jsIncludes a p \<Longrightarrow> jsIncludes (a @ b) p"
proof (induction a)
  case Nil
  then show ?case by (cases b) auto
next
  case (Cons c a)
  then show ?case using startsWith_append [of "c # a" p b] by auto
qed

lemma jsIncludes_appendI2: "jsIncludes b p \<Longrightarrow> jsIncludes (a @ b) p"
  by (induction a) auto

lemma startsWith_nl3: "startsWith s [10, 10, 10] = (\<exists>r. s = 10 # 10 # 10 # r)"
  by (cases s; simp; rename_tac a s1; case_tac s1; simp; rename_tac b s2; case_tac s2; auto)

lemma tripleNewline_Cons:
  "tripleNewline (c # s) = ((\<exists>r. c # s = 10 # 10 # 10 # r) \<or> tripleNewline s)"
  unfolding tripleNewline_def by (simp only: jsIncludes.simps startsWith_nl3)

lemma tripleNewline_Nil [simp]: "\<not> tripleNewline []"
  by (simp add: tripleNewline_def)

lemma tripleNewline_append:
  "tripleNewline (a @ b) \<Longrightarrow> tripleNewline a \<or> tripleNewline b \<or> (a \<noteq> [] \<and> last a = 10)"
proof (induction a)
  case Nil
  then show ?case by simp
next
  case (Cons c a)
  from Cons.prems have "(\<exists>r. c # a @ b = 10 # 10 # 10 # r) \<or> tripleNewline (a @ b)"
    by (simp add: tripleNewline_Cons)
  then show ?case
  proof
    assume "\<exists>r. c # a @ b = 10 # 10 # 10 # r"
    then obtain r where r: "c = 10" "a @ b = 10 # 10 # r" by auto
    show ?thesis
    proof (cases a)
      case Nil
      then show ?thesis using r by simp
    next
      case (Cons x a')
      note a = this
      show ?thesis
      proof (cases a')
        case Nil
        then show ?thesis using r a by simp
      next
        case (Cons y a'')
        then show ?thesis using r a by (simp add: tripleNewline_Cons)
      qed
    qed
  next
    assume "tripleNewline (a @ b)"
    then show ?thesis using Cons.IH by (auto simp: tripleNewline_Cons)
  qed
qed

lemma tripleNewline_prefix: "tripleNewline a \<Longrightarrow> tripleNewline (a @ b)"
  unfolding tripleNewline_def by (rule jsIncludes_appendI1)

lemma tripleNewline_suffix: "tripleNewline b \<Longrightarrow> tripleNewline (a @ b)"
  unfolding tripleNewline_def by (rule jsIncludes_appendI2)

subsection \<open>Collapsing blank lines\<close>

lemma greedy_Chr_hd:
  "length s \<le> n \<Longrightarrow>
   greedy n (ends (Chr P)) (prev, s) \<noteq> []
   \<and> snd (hd (greedy n (ends (Chr P)) (prev, s))) = dropWhile P s"
proof (induction s arbitrary: n prev)
  case Nil
  then show ?case by (cases n) (auto simp: progress_def)
next
  case (Cons c s)
  then obtain m where n: "n = Suc m" and m: "length s \<le> m"
    by (cases n) auto
  show ?case
    using Cons.IH [OF m, of "Some c"] by (auto simp: n progress_def)
qed

lemma concat_map_Eps: "concat (map (ends Eps) qs) = qs"
  by (induction qs) auto

lemma ends_BLANK_LINES_match:
  "ends (body BLANK_LINES) (prev, 10 # 10 # 10 # r) \<noteq> []
   \<and> snd (hd (ends (body BLANK_LINES) (prev, 10 # 10 # 10 # r))) = dropWhile (\<lambda>c. c = 10) r"
proof -
  have "ends (body BLANK_LINES) (prev, 10 # 10 # 10 # r)
      = greedy (length r) (ends (Chr (\<lambda>c. c = 10))) (Some 10, r)"
    by (simp add: BLANK_LINES_def REs_def seqs_def nl_def concat_map_Eps del: ends.simps(3))
  then show ?thesis
    using greedy_Chr_hd [of r "length r" "\<lambda>c. c = 10" "Some 10"] by simp
qed

lemma ends_BLANK_LINES_none:
  "\<not> (\<exists>r. s = 10 # 10 # 10 # r) \<Longrightarrow> ends (body BLANK_LINES) (prev, s) = []"
  by (cases s; simp add: BLANK_LINES_def REs_def seqs_def nl_def; rename_tac a s1; case_tac s1;
      simp; rename_tac b s2; case_tac s2; auto)

lemma leadNl_simps [simp]:
  "leadNl [] = 0"
  "leadNl (c # s) = (if c = 10 then Suc (leadNl s) else 0)"
  by (simp_all add: leadNl_def)

lemma leadNl_dropWhile [simp]: "leadNl (dropWhile (\<lambda>c. c = 10) s) = 0"
  by (induction s) auto

lemma triple_iff_lead: "(\<exists>r. s = 10 # 10 # 10 # r) = (3 \<le> leadNl s)"
  by (cases s; simp; rename_tac a s1; case_tac s1; simp; rename_tac b s2; case_tac s2; auto)

lemma collapse_invariant:
  "k \<le> length s \<Longrightarrow>
   \<not> tripleNewline (replaceGo (body BLANK_LINES) [10, 10] k prev s)
   \<and> leadNl (replaceGo (body BLANK_LINES) [10, 10] k prev s) = min 2 (leadNl (drop k s))"
proof (induction s arbitrary: k prev)
  case Nil
  then show ?case
    by (simp add: ends_BLANK_LINES_none)
next
  case (Cons c cs)
  show ?case
  proof (cases k)
    case (Suc k')
    then show ?thesis
      using Cons.IH [of k' "Some c"] Cons.prems by simp
  next
    case 0
    show ?thesis
    proof (cases "\<exists>r. c # cs = 10 # 10 # 10 # r")
      case False
      then have e: "ends (body BLANK_LINES) (prev, c # cs) = []"
        by (rule ends_BLANK_LINES_none)
      have ih: "\<not> tripleNewline (replaceGo (body BLANK_LINES) [10, 10] 0 (Some c) cs)"
        "leadNl (replaceGo (body BLANK_LINES) [10, 10] 0 (Some c) cs) = min 2 (leadNl cs)"
        using Cons.IH [of 0 "Some c"] by simp_all
      from False have "\<not> 3 \<le> leadNl (c # cs)"
        unfolding triple_iff_lead .
      then have small: "c = 10 \<longrightarrow> leadNl cs \<le> 1"
        by (simp split: if_splits)
      show ?thesis
        using ih small
        by (auto simp: 0 e tripleNewline_Cons triple_iff_lead)
    next
      case True
      then obtain r where r: "c = 10" "cs = 10 # 10 # r"
        by auto
      let ?E = "ends (body BLANK_LINES) (prev, 10 # 10 # 10 # r)"
      obtain q qs where q: "?E = q # qs" and sq: "snd q = dropWhile (\<lambda>c. c = 10) r"
        using ends_BLANK_LINES_match [of prev r] by (cases ?E) auto
      let ?n = "Suc (Suc (length (takeWhile (\<lambda>c. c = 10) r)))"
      have len: "length (10 # 10 # 10 # r) - length (snd q) = Suc ?n"
        unfolding sq
        using length_append [of "takeWhile (\<lambda>c. c = 10) r" "dropWhile (\<lambda>c. c = 10) r"]
        by (simp del: length_append)
      have out: "replaceGo (body BLANK_LINES) [10, 10] 0 prev (c # cs)
          = [10, 10] @ replaceGo (body BLANK_LINES) [10, 10] ?n (Some 10) (10 # 10 # r)"
        unfolding r by (simp only: replaceGo.simps q list.case len nat.case)
      have n: "?n \<le> length (10 # 10 # r)"
        using length_takeWhile_le [of "\<lambda>c. c = 10" r] by simp
      have d: "drop ?n (10 # 10 # r) = dropWhile (\<lambda>c. c = 10) r"
        by (simp add: dropWhile_eq_drop)
      have ih: "\<not> tripleNewline (replaceGo (body BLANK_LINES) [10, 10] ?n (Some 10) (10 # 10 # r))"
        "leadNl (replaceGo (body BLANK_LINES) [10, 10] ?n (Some 10) (10 # 10 # r)) = 0"
        using Cons.IH [of ?n "Some c", unfolded r, OF n] unfolding d by simp_all
      show ?thesis
        unfolding 0 out using ih
        by (auto simp: tripleNewline_Cons triple_iff_lead r)
    qed
  qed
qed

lemma collapseBlankLines_no_triple: "\<not> tripleNewline (collapseBlankLines s)"
  using collapse_invariant [of 0 s None] by (simp add: collapseBlankLines_def replaceAll_def)

subsection \<open>Lines\<close>

lemma splitOn_not_Nil [simp]: "splitOn d s \<noteq> []"
  by (induction s) (auto split: list.splits)

lemma joinWith_Cons_Cons: "joinWith d ((c # l) # ls) = c # joinWith d (l # ls)"
  by (cases ls) simp_all

lemma joinWith_Cons: "ls \<noteq> [] \<Longrightarrow> joinWith d (l # ls) = l @ d # joinWith d ls"
  by (cases ls) simp_all

lemma joinWith_splitOn: "joinWith d (splitOn d s) = s"
proof (induction s)
  case Nil
  show ?case by simp
next
  case (Cons c cs)
  show ?case
  proof (cases "c = d")
    case True
    then show ?thesis using Cons by (simp add: joinWith_Cons)
  next
    case False
    obtain l ls where s: "splitOn d cs = l # ls"
      by (cases "splitOn d cs") auto
    show ?thesis using False Cons by (simp add: s joinWith_Cons_Cons)
  qed
qed

lemma splitOn_lines: "l \<in> set (splitOn d s) \<Longrightarrow> d \<notin> set l"
  by (induction s arbitrary: l) (auto split: list.splits if_splits)

lemma twoBlankThenLine_join:
  "twoBlankThenLine post \<Longrightarrow> \<exists>r. joinWith 10 post = 10 # 10 # r"
  by (cases post rule: twoBlankThenLine.cases) auto

lemma twoBlankThenLine_not_Nil: "twoBlankThenLine post \<Longrightarrow> post \<noteq> []"
  by auto

lemma blankWindow_not_Nil: "blankWindow post \<Longrightarrow> post \<noteq> []"
  by auto

lemma blankWindow_join: "blankWindow ls \<Longrightarrow> tripleNewline (joinWith 10 ls)"
proof (induction ls)
  case Nil
  then show ?case by simp
next
  case (Cons x post)
  from Cons.prems have "twoBlankThenLine post \<or> blankWindow post" by simp
  then show ?case
  proof
    assume t: "twoBlankThenLine post"
    then obtain r where r: "joinWith 10 post = 10 # 10 # r"
      using twoBlankThenLine_join by blast
    have "tripleNewline (10 # joinWith 10 post)"
      unfolding r by (simp add: tripleNewline_Cons)
    then have "tripleNewline (x @ 10 # joinWith 10 post)"
      by (rule tripleNewline_suffix)
    then show ?thesis
      using t by (simp add: joinWith_Cons twoBlankThenLine_not_Nil)
  next
    assume b: "blankWindow post"
    then have "tripleNewline (joinWith 10 post)" by (rule Cons.IH)
    then have "tripleNewline (10 # joinWith 10 post)"
      by (simp add: tripleNewline_Cons)
    then have "tripleNewline (x @ 10 # joinWith 10 post)"
      by (rule tripleNewline_suffix)
    then show ?thesis
      using b by (simp add: joinWith_Cons blankWindow_not_Nil)
  qed
qed

lemma tripleNewline_line: "10 \<notin> set l \<Longrightarrow> tripleNewline (l @ s) = tripleNewline s"
  by (induction l) (auto simp: tripleNewline_Cons)

lemma join_blankWindow:
  "\<forall>l \<in> set ls. 10 \<notin> set l \<Longrightarrow> tripleNewline (joinWith 10 ls) \<Longrightarrow> blankWindow ls"
proof (induction ls)
  case Nil
  then show ?case by simp
next
  case (Cons x post)
  show ?case
  proof (cases post)
    case Nil
    then show ?thesis using Cons.prems tripleNewline_line [of x "[]"] by simp
  next
    case (Cons m ms)
    have nx: "10 \<notin> set x" and nm: "10 \<notin> set m" using Cons.prems(1) Cons by auto
    have "tripleNewline (10 # joinWith 10 post)"
      using Cons.prems(2) Cons tripleNewline_line [OF nx, of "10 # joinWith 10 post"] by simp
    then have "(\<exists>r. joinWith 10 post = 10 # 10 # r) \<or> tripleNewline (joinWith 10 post)"
      by (simp add: tripleNewline_Cons)
    then show ?thesis
    proof
      assume "\<exists>r. joinWith 10 post = 10 # 10 # r"
      then obtain r where r: "joinWith 10 (m # ms) = 10 # 10 # r" using Cons by auto
      have m: "m = []"
        using r nm by (cases ms; cases m) auto
      then obtain m' ms' where ms: "ms = m' # ms'" using r by (cases ms) auto
      have nm': "10 \<notin> set m'" using Cons.prems(1) Cons ms by auto
      have r': "joinWith 10 (m' # ms') = 10 # r" using r m ms by simp
      have m': "m' = []"
        using r' nm' by (cases ms'; cases m') auto
      then obtain y rest where "ms' = y # rest" using r' by (cases ms') auto
      then show ?thesis using Cons m ms m' by simp
    next
      assume "tripleNewline (joinWith 10 post)"
      then have "blankWindow post" using Cons.IH Cons.prems(1) by simp
      then show ?thesis by simp
    qed
  qed
qed

subsection \<open>The core-persona reduction\<close>

lemma personaLoop_acc:
  "personaLoop ls k c res = res @ personaLoop ls k c []"
proof (induction ls arbitrary: k c res)
  case Nil
  show ?case by simp
next
  case (Cons line lines)
  have ih: "\<And>k c r. personaLoop lines k c r = r @ personaLoop lines k c []"
    by (rule Cons)
  show ?case
    by (simp add: ih [of _ _ "res @ [line]"] ih [of _ _ "[line]"] ih [of _ _ res])
qed

lemma SECTION_HEADER_empty: "\<not> test SECTION_HEADER []"
  by (simp add: SECTION_HEADER_def engine_eval)

lemma personaLoop_subset: "set (personaLoop ls k c []) \<subseteq> set ls"
proof (induction ls arbitrary: k c)
  case Nil
  show ?case by simp
next
  case (Cons line lines)
  show ?case
    using Cons [of True "Suc c"] Cons [of False "Suc c"] Cons [of k c]
      personaLoop_acc [of lines _ _ "[line]"]
    by auto
qed

lemma personaLoop_drop:
  "personaLoop ls False c [] = [] \<or> hd (personaLoop ls False c []) \<noteq> []"
proof (induction ls arbitrary: c)
  case Nil
  show ?case by simp
next
  case (Cons line lines)
  show ?case
    using Cons [of "Suc c"] Cons [of c] personaLoop_acc [of lines True "Suc c" "[line]"]
      SECTION_HEADER_empty
    by auto
qed

lemma personaLoop_keep_head:
  "personaLoop ls True c [] = [] # out \<Longrightarrow>
   \<exists>lines. ls = [] # lines \<and> out = personaLoop lines True c []"
proof (cases ls)
  case Nil
  assume "personaLoop ls True c [] = [] # out"
  then show ?thesis using Nil by simp
next
  case (Cons line lines)
  assume a: "personaLoop ls True c [] = [] # out"
  show ?thesis
  proof (cases "test SECTION_HEADER line")
    case False
    then show ?thesis
      using a Cons personaLoop_acc [of lines True c "[line]"] by simp
  next
    case True
    then have ne: "line \<noteq> []" using SECTION_HEADER_empty by auto
    show ?thesis
    proof (cases "Suc c \<le> 1 \<or> list_ex (\<lambda>p. test p line) CORE_TOPICS")
      case True
      then show ?thesis
        using a Cons \<open>test SECTION_HEADER line\<close> ne
          personaLoop_acc [of lines True "Suc c" "[line]"] by simp
    next
      case False
      then show ?thesis
        using a Cons \<open>test SECTION_HEADER line\<close> personaLoop_drop [of lines "Suc c"] by auto
    qed
  qed
qed

lemma personaLoop_twoBlank:
  assumes "twoBlankThenLine (personaLoop ls True c [])"
  shows "twoBlankThenLine ls"
proof -
  from assms obtain y rest where o: "personaLoop ls True c [] = [] # [] # y # rest"
    by (cases "personaLoop ls True c []" rule: twoBlankThenLine.cases) auto
  from personaLoop_keep_head [OF o] obtain l1 where
    l1: "ls = [] # l1" "personaLoop l1 True c [] = [] # y # rest" by auto
  from personaLoop_keep_head [OF l1(2)] obtain l2 where
    l2: "l1 = [] # l2" "personaLoop l2 True c [] = y # rest" by auto
  from l2(2) obtain z l3 where "l2 = z # l3" by (cases l2) auto
  then show ?thesis using l1 l2 by simp
qed

lemma personaLoop_blankWindow:
  "blankWindow (personaLoop ls k c []) \<Longrightarrow> blankWindow ls"
proof (induction ls arbitrary: k c)
  case Nil
  then show ?case by simp
next
  case (Cons line lines)
  consider
      (kept) c' where "personaLoop (line # lines) k c [] = line # personaLoop lines True c' []"
    | (dropped) k' c' where "personaLoop (line # lines) k c [] = personaLoop lines k' c' []"
    using personaLoop_acc [of lines True "Suc c" "[line]"] personaLoop_acc [of lines k c "[line]"]
    by (cases "test SECTION_HEADER line"; cases k;
        cases "Suc c \<le> 1 \<or> list_ex (\<lambda>p. test p line) CORE_TOPICS") auto
  then show ?case
  proof cases
    case kept
    then have "twoBlankThenLine (personaLoop lines True c' []) \<or> blankWindow (personaLoop lines True c' [])"
      using Cons.prems by simp
    then show ?thesis
      using personaLoop_twoBlank [of lines c'] Cons.IH [of True c'] by auto
  next
    case dropped
    then show ?thesis using Cons.IH [of k' c'] Cons.prems by simp
  qed
qed

subsection \<open>Trimming\<close>

lemma trimEnd_prefix: "\<exists>w. s = trimEnd s @ w"
proof (induction s)
  case Nil
  show ?case by simp
next
  case (Cons c cs)
  then obtain w where w: "cs = trimEnd cs @ w" by blast
  show ?case
  proof (cases "trimEnd cs")
    case Nil
    then show ?thesis by (cases "isWhiteSpace c") auto
  next
    case (Cons d ds)
    then show ?thesis using w by auto
  qed
qed

lemma trimEnd_last: "trimEnd s \<noteq> [] \<Longrightarrow> \<not> isWhiteSpace (last (trimEnd s))"
  by (induction s) (auto split: list.splits if_splits)

lemma trimEnd_no_triple: "\<not> tripleNewline s \<Longrightarrow> \<not> tripleNewline (trimEnd s)"
  using trimEnd_prefix [of s] tripleNewline_prefix [of "trimEnd s"] by metis

lemma trim_no_triple: "\<not> tripleNewline s \<Longrightarrow> \<not> tripleNewline (trim s)"
proof -
  assume a: "\<not> tripleNewline s"
  have "s = takeWhile isWhiteSpace s @ trimStart s"
    by (simp add: trimStart_def)
  then have "\<not> tripleNewline (trimStart s)"
    using a tripleNewline_suffix [of "trimStart s" "takeWhile isWhiteSpace s"] by auto
  then show ?thesis
    unfolding trim_def by (rule trimEnd_no_triple)
qed

lemma extractCorePersona_no_triple:
  assumes "\<not> tripleNewline s"
  shows "\<not> tripleNewline (extractCorePersona s)"
proof -
  let ?ks = "personaLoop (splitOn 10 s) True 0 []"
  have "\<not> blankWindow (splitOn 10 s)"
    using assms blankWindow_join [of "splitOn 10 s"] by (auto simp: joinWith_splitOn)
  then have "\<not> blankWindow ?ks"
    using personaLoop_blankWindow by blast
  moreover have "\<forall>l \<in> set ?ks. 10 \<notin> set l"
    using personaLoop_subset [of "splitOn 10 s" True 0] splitOn_lines [of _ 10 s] by blast
  ultimately have "\<not> tripleNewline (joinWith 10 ?ks)"
    using join_blankWindow by blast
  then show ?thesis
    unfolding extractCorePersona_def by (rule trim_no_triple)
qed

lemma formatConstraint_no_triple: "\<not> tripleNewline formatConstraint"
  by (simp add: formatConstraint_def js_def tripleNewline_def)

lemma adaptedT1_no_triple: "\<not> tripleNewline (adaptedT1 U prompt)"
  by (simp add: adaptedT1_def Let_def collapseBlankLines_no_triple extractCorePersona_no_triple)

lemma T1_no_triple: "\<not> tripleNewline (trimEnd (adaptedT1 U prompt) @ formatConstraint)"
proof
  assume "tripleNewline (trimEnd (adaptedT1 U prompt) @ formatConstraint)"
  then have "trimEnd (adaptedT1 U prompt) \<noteq> [] \<and> last (trimEnd (adaptedT1 U prompt)) = 10"
    using tripleNewline_append formatConstraint_no_triple
      trimEnd_no_triple [OF adaptedT1_no_triple [of U prompt]] by blast
  then show False
    using trimEnd_last [of "adaptedT1 U prompt"] by (simp add: isWhiteSpace_def)
qed

subsection \<open>The section-stripping stage\<close>

lemma sectionsOf_not_Nil [simp]: "sectionsOf ls \<noteq> []"
  by (induction ls) (auto split: list.splits)

lemma strippable_header: "strippableLine U H line \<Longrightarrow> isHeaderLine line"
  by (auto simp: strippableLine_def isHeaderLine_def split: option.splits)

lemma keptSection_Cons: "keptSection U H (line # s) = (\<not> strippableLine U H line)"
  by (simp add: keptSection_def)

lemma strippableLine_match:
  "headerMatch line = Some g \<Longrightarrow> strippableLine U H line = (normalizeHeader U g \<in> set H)"
  by (simp add: strippableLine_def)

lemma preamble_kept: "keptSection U H (hd (sectionsOf ls))"
proof (cases ls)
  case Nil
  then show ?thesis by (simp add: keptSection_def)
next
  case (Cons line lines)
  obtain s ss where s: "sectionsOf lines = s # ss"
    by (cases "sectionsOf lines") auto
  show ?thesis
    using strippable_header [of U H line] by (auto simp: Cons s keptSection_def)
qed

lemma stripLoop_sections:
  "stripLoop U H ls sk res =
     res @ (if sk then [] else hd (sectionsOf ls))
         @ concat (filter (keptSection U H) (tl (sectionsOf ls)))"
proof (induction ls arbitrary: sk res)
  case Nil
  show ?case by simp
next
  case (Cons line lines)
  obtain s ss where s: "sectionsOf lines = s # ss"
    by (cases "sectionsOf lines") auto
  have ih: "\<And>sk res. stripLoop U H lines sk res
      = res @ (if sk then [] else s) @ concat (filter (keptSection U H) ss)"
    using Cons [unfolded s] by simp
  show ?case
  proof (cases "headerMatch line")
    case None
    then show ?thesis
      by (simp add: ih s isHeaderLine_def)
  next
    case (Some g)
    then show ?thesis
      by (simp add: ih s isHeaderLine_def keptSection_Cons strippableLine_match)
  qed
qed

lemma stripLoop_keepSections:
  "stripLoop U H ls False [] = keepSections U H ls"
proof -
  obtain s ss where s: "sectionsOf ls = s # ss"
    by (cases "sectionsOf ls") auto
  have "keptSection U H s"
    using preamble_kept [of U H ls] by (simp add: s)
  then show ?thesis
    by (simp add: stripLoop_sections keepSections_def s)
qed

lemma stripLoop_lines:
  "set (stripLoop U H ls sk res) \<subseteq> set res \<union> {l \<in> set ls. \<not> strippableLine U H l}"
proof (induction ls arbitrary: sk res)
  case Nil
  show ?case by simp
next
  case (Cons line lines)
  show ?case
    using Cons [of True res] Cons [of False "res @ [line]"] Cons [of sk res]
      Cons [of sk "res @ [line]"]
    by (cases "headerMatch line") (auto simp: strippableLine_def)
qed

lemma splitOn_line: "d \<notin> set l \<Longrightarrow> splitOn d l = [l]"
  by (induction l) auto

lemma splitOn_append: "d \<notin> set l \<Longrightarrow> splitOn d (l @ d # s) = l # splitOn d s"
  by (induction l) auto

lemma splitOn_joinWith:
  "ks \<noteq> [] \<Longrightarrow> \<forall>l \<in> set ks. d \<notin> set l \<Longrightarrow> splitOn d (joinWith d ks) = ks"
proof (induction ks)
  case Nil
  then show ?case by simp
next
  case (Cons k ks)
  show ?case
  proof (cases ks)
    case Nil
    then show ?thesis using Cons.prems by (simp add: splitOn_line)
  next
    case (Cons m ms)
    then show ?thesis
      using Cons.IH Cons.prems by (simp add: splitOn_append)
  qed
qed

lemma headerMatch_empty: "headerMatch [] = None"
  by (simp add: headerMatch_def HEADER_PREFIX_def engine_eval)

lemma stage_lines:
  "l \<in> set (splitOn 10 (stripSectionsByHeader U prompt H)) \<Longrightarrow> \<not> strippableLine U H l"
proof -
  let ?ks = "stripLoop U H (splitOn 10 prompt) False []"
  assume a: "l \<in> set (splitOn 10 (stripSectionsByHeader U prompt H))"
  have sub: "set ?ks \<subseteq> {l \<in> set (splitOn 10 prompt). \<not> strippableLine U H l}"
    using stripLoop_lines [of U H "splitOn 10 prompt" False "[]"] by simp
  show ?thesis
  proof (cases "?ks = []")
    case True
    then have "l = []" using a by (simp add: stripSectionsByHeader_def)
    then show ?thesis by (simp add: strippableLine_def headerMatch_empty)
  next
    case False
    have "\<forall>l \<in> set ?ks. 10 \<notin> set l"
      using sub splitOn_lines [of _ 10 prompt] by blast
    then have "splitOn 10 (joinWith 10 ?ks) = ?ks"
      using False by (rule splitOn_joinWith [rotated])
    then show ?thesis using a sub by (auto simp: stripSectionsByHeader_def)
  qed
qed

subsection \<open>Evaluation of the adapter on a concrete prompt\<close>

lemmas adapter_eval = headerMatch_def HEADER_PREFIX_def HEADER_TEXT_def normalizeHeader_def
  LEADING_EMOJI_def TRAILING_PUNCTUATION_def replaceFirst_def replaceAll_def stripBoilerplate_def
  BOILERPLATE_PHRASES_def collapseBlankLines_def BLANK_LINES_def STRIPPABLE_SECTION_HEADERS_def
  adaptedT1_def adaptForT1_def adaptPromptForTier_def fixtureUnicode_def stripSectionsByHeader_def
  trim_def trimStart_def

lemmas sections_eval = keepSections_def keptSection_def strippableLine_def isHeaderLine_def

subsection \<open>Exact-match section stripping\<close>

text \<open>
  C1 (amended).  For every prompt and every set of headers, the section-stripping
  stage \<open>stripSectionsByHeader\<close> removes exactly the sections whose normalised header
  is, by exact membership, in the set: its result is the preamble and every section
  whose normalised header is not in the set, line by line and in order
  (\<open>keepSections\<close>).  The later stages of T1 (boilerplate removal, blank-line
  collapse, the reduction of a text longer than 3200 code units, and the final
  \<open>trimEnd\<close>) can still change a surviving section; when the first three leave the
  stripped text unchanged, the T1 system prompt is the surviving lines, joined and
  trimmed at the end, followed by the format constraint.
\<close>

theorem stripSectionsByHeader_exact:
  "stripSectionsByHeader U prompt headers
     = joinWith 10 (keepSections U headers (splitOn 10 prompt))
   \<and> (let stripped = stripSectionsByHeader U prompt STRIPPABLE_SECTION_HEADERS in
        stripBoilerplate stripped = stripped \<and> collapseBlankLines stripped = stripped
        \<and> length stripped \<le> 3200
        \<longrightarrow> systemPrompt (adaptPromptForTier U prompt T1)
             = Some (trimEnd (joinWith 10
                       (keepSections U STRIPPABLE_SECTION_HEADERS (splitOn 10 prompt)))
                     @ formatConstraint))"
proof -
  have eq: "\<And>H. stripSectionsByHeader U prompt H
      = joinWith 10 (keepSections U H (splitOn 10 prompt))"
    by (simp add: stripSectionsByHeader_def stripLoop_keepSections)
  show ?thesis
    by (simp add: eq [symmetric] adaptPromptForTier_def adaptForT1_def adaptedT1_def Let_def)
qed

text \<open>In \<open>promptWithLookalike\<close> the section \<open>## Tools\<close> goes and the section
  \<open>## Tools Section\<close> stays.\<close>

theorem stripSectionsByHeader_exact_witness:
  "keepSections fixtureUnicode STRIPPABLE_SECTION_HEADERS (splitOn 10 promptWithLookalike)
     = map js [''# Persona'', ''## Tools Section'', ''My own notes.'']
   \<and> systemPrompt (adaptPromptForTier fixtureUnicode promptWithLookalike T1)
     = Some (js ''# Persona'' @ [10] @ js ''## Tools Section'' @ [10] @ js ''My own notes.''
             @ formatConstraint)"
  using stripSectionsByHeader_exact
    [of fixtureUnicode promptWithLookalike STRIPPABLE_SECTION_HEADERS]
  by (simp add: promptWithLookalike_def sections_eval adapter_eval engine_eval)

text \<open>The claim as stated fails: the header \<open>## Notes\<close> is not in the allow-list, and
  the line under it is absent from the T1 system prompt, because the boilerplate stage
  removes it.\<close>

theorem stripSectionsByHeader_exact_counterexample:
  "\<not> strippableLine fixtureUnicode STRIPPABLE_SECTION_HEADERS (js ''## Notes'')
   \<and> systemPrompt (adaptPromptForTier fixtureUnicode promptWithBoilerplate T1)
       = Some (js ''## Notes'' @ formatConstraint)
   \<and> js ''Don't ask permission. Just do it.'' \<in> set (splitOn 10 promptWithBoilerplate)
   \<and> \<not> jsIncludes (js ''## Notes'' @ formatConstraint)
         (js ''Don't ask permission. Just do it.'')"
  by (simp add: promptWithBoilerplate_def sections_eval adapter_eval engine_eval
      formatConstraint_def)

subsection \<open>What the T1 system prompt cannot contain\<close>

text \<open>
  C2 (amended).  For every prompt, the T1 system prompt exists and contains no
  run of three or more newlines.  The text left by the section-stripping stage of T1
  has no line that is a header whose normalised text is in the allow-list; so, on a
  platform where the header lines \<open>## Tools\<close>, \<open>## Heartbeats\<close>, \<open>## Group Chats\<close> and
  \<open>## React Like a Human\<close> normalise to their allow-listed names, none of them is a line
  of that text.  (The final T1 text can still contain these strings, and the
  boilerplate phrase.)
\<close>

theorem adaptForT1_no_blank_run:
  "(\<exists>out. systemPrompt (adaptPromptForTier U prompt T1) = Some out \<and> \<not> tripleNewline out)
   \<and> list_all (\<lambda>l. \<not> strippableLine U STRIPPABLE_SECTION_HEADERS l)
        (splitOn 10 (stripSectionsByHeader U prompt STRIPPABLE_SECTION_HEADERS))
   \<and> (list_all (strippableLine U STRIPPABLE_SECTION_HEADERS)
         (map js [''## Tools'', ''## Heartbeats'', ''## Group Chats'', ''## React Like a Human''])
        \<longrightarrow> list_all
              (\<lambda>h. h \<notin> set (splitOn 10
                              (stripSectionsByHeader U prompt STRIPPABLE_SECTION_HEADERS)))
              (map js [''## Tools'', ''## Heartbeats'', ''## Group Chats'',
                 ''## React Like a Human'']))"
proof -
  let ?out = "splitOn 10 (stripSectionsByHeader U prompt STRIPPABLE_SECTION_HEADERS)"
  have a: "\<exists>out. systemPrompt (adaptPromptForTier U prompt T1) = Some out \<and> \<not> tripleNewline out"
    by (simp add: adaptPromptForTier_def adaptForT1_def T1_no_triple)
  have b: "list_all (\<lambda>l. \<not> strippableLine U STRIPPABLE_SECTION_HEADERS l) ?out"
    unfolding list_all_iff using stage_lines by blast
  have c: "\<And>hs. list_all (strippableLine U STRIPPABLE_SECTION_HEADERS) hs
      \<Longrightarrow> list_all (\<lambda>h. h \<notin> set ?out) hs"
    unfolding list_all_iff using stage_lines by blast
  show ?thesis
    using a b c by blast
qed

text \<open>In \<open>promptWithBlankRun\<close> a run of four newlines is left after the section
  \<open>## Tools\<close> is removed.\<close>

theorem adaptForT1_no_blank_run_witness:
  "systemPrompt (adaptPromptForTier fixtureUnicode promptWithBlankRun T1)
     = Some (js ''# Persona'' @ formatConstraint)
   \<and> \<not> tripleNewline (js ''# Persona'' @ formatConstraint)
   \<and> list_all (strippableLine fixtureUnicode STRIPPABLE_SECTION_HEADERS)
        (map js [''## Tools'', ''## Heartbeats'', ''## Group Chats'', ''## React Like a Human''])
   \<and> js ''## Tools'' \<notin> set (splitOn 10
         (stripSectionsByHeader fixtureUnicode promptWithBlankRun STRIPPABLE_SECTION_HEADERS))"
proof -
  have s: "list_all (strippableLine fixtureUnicode STRIPPABLE_SECTION_HEADERS)
        (map js [''## Tools'', ''## Heartbeats'', ''## Group Chats'', ''## React Like a Human''])"
    by (simp add: sections_eval adapter_eval engine_eval)
  have o: "systemPrompt (adaptPromptForTier fixtureUnicode promptWithBlankRun T1)
     = Some (js ''# Persona'' @ formatConstraint)"
    by (simp add: promptWithBlankRun_def adapter_eval engine_eval)
  show ?thesis
    using adaptForT1_no_blank_run [of fixtureUnicode promptWithBlankRun] s o
    by simp
qed

text \<open>The claim as stated fails: a header that merely starts like an allow-listed one
  survives, and with it the string \<open>## Tools\<close>; and the boilerplate phrase is removed in
  one pass, so that a removal can put the phrase together again.\<close>

theorem adaptForT1_no_blank_run_counterexample:
  "systemPrompt (adaptPromptForTier fixtureUnicode (js ''## Tools Section'') T1)
     = Some (js ''## Tools Section'' @ formatConstraint)
   \<and> jsIncludes (js ''## Tools Section'' @ formatConstraint) (js ''## Tools'')
   \<and> systemPrompt (adaptPromptForTier fixtureUnicode promptNestedBoilerplate T1)
     = Some (js ''Don't ask permission. Just do it.'' @ formatConstraint)
   \<and> jsIncludes (js ''Don't ask permission. Just do it.'' @ formatConstraint)
        (js ''Don't ask permission. Just do it.'')"
  by (simp add: promptNestedBoilerplate_def adapter_eval engine_eval)

end
